theory Spec2Isabelle
  imports Main "HOL-Library.Sublist" "HOL-Library.FSet" "HOL-Library.Word"
begin

section \<open>Data model of \<^verbatim>\<open>systems/framework/system_base.cc\<close>\<close>

text \<open>
  The translation unit implements the member functions of \<^verbatim>\<open>SystemBase\<close>. The classes it
  works on (\<^verbatim>\<open>ContextBase\<close>, \<^verbatim>\<open>Cache\<close>, \<^verbatim>\<open>DependencyGraph\<close>, \<^verbatim>\<open>CacheEntry\<close>, the port
  classes, the parent service interface) are declared in headers. Each class is a record of
  the members the functions of this unit read or write; a pointer that may be null is an
  \<open>option\<close>; a typed index (\<^verbatim>\<open>InputPortIndex\<close>, \<^verbatim>\<open>CacheIndex\<close>, a ticket) cannot be negative
  and is a \<open>nat\<close>, while a plain \<^verbatim>\<open>int\<close> argument is an \<open>int\<close>.
\<close>

type_synonym DependencyTicket = nat
type_synonym CacheIndex = nat
type_synonym InputPortIndex = nat
type_synonym OutputPortIndex = nat
type_synonym SubsystemIndex = nat
type_synonym SystemId = nat

text \<open>A type-erased value; the payload stands for whatever the value holds.\<close>

datatype AbstractValue = AbstractValue nat

text \<open>
  What a call can end with instead of a result: the two standard exceptions the unit
  throws, each with its \<^verbatim>\<open>what()\<close> text, and the failure of a \<^verbatim>\<open>DRAKE_DEMAND\<close>.
\<close>

datatype error = out_of_range string | logic_error string | demand_failed

subsection \<open>The Context side\<close>

record CacheEntryValue =
  value_description :: string
  value_cache_index :: CacheIndex
  value_ticket :: DependencyTicket
  held_value :: "AbstractValue option"
  caching_disabled :: bool

text \<open>
  The dependency graph of one Context: the trackers it owns, keyed by ticket, each with its
  description, and the subscriptions as pairs (prerequisite, subscriber).
\<close>

record DependencyGraph =
  trackers :: "DependencyTicket \<rightharpoonup> string"
  subscriptions :: "(DependencyTicket \<times> DependencyTicket) list"

record context_data =
  context_system_name :: string
  context_system_id :: SystemId
  is_context_base_initialized :: bool
  graph :: DependencyGraph
  cache :: "CacheIndex \<rightharpoonup> CacheEntryValue"
  context_discrete_state_tickets :: "DependencyTicket list"
  context_abstract_state_tickets :: "DependencyTicket list"
  context_numeric_parameter_tickets :: "DependencyTicket list"
  context_abstract_parameter_tickets :: "DependencyTicket list"
  all_input_ports_ticket :: DependencyTicket
  input_port_tickets :: "DependencyTicket list"
  input_port_type_checkers :: "(AbstractValue \<Rightarrow> bool) list"
  input_port_values :: "InputPortIndex \<rightharpoonup> AbstractValue"
  output_port_tickets :: "DependencyTicket list"

text \<open>
  A Context and the non-owning pointer to its parent Context (null at the root). The parent
  chain of a value of this type is finite, as it is in a tree of Contexts.
\<close>

datatype ContextBase =
  ContextBase (base: context_data) (get_parent_base: "ContextBase option")

subsection \<open>The System side\<close>

record ValueProducer =
  allocate :: "unit \<Rightarrow> AbstractValue"
  calc :: "ContextBase \<Rightarrow> AbstractValue"

record CacheEntry =
  owning_system :: SystemId
  cache_index :: CacheIndex
  entry_ticket :: DependencyTicket
  entry_description :: string
  value_producer :: ValueProducer
  prerequisites :: "DependencyTicket fset"
  is_disabled_by_default :: bool

record TrackerInfo =
  info_ticket :: DependencyTicket
  info_description :: string

text \<open>
  \<^verbatim>\<open>PortBase\<close> with the members this unit uses. \<^verbatim>\<open>GetFullDescription()\<close> is declared in
  port_base.h; its text is carried as a field.
\<close>

record PortBase =
  port_name :: string
  get_index :: nat
  port_ticket :: DependencyTicket
  deprecation :: "string option"
  deprecation_already_warned :: bool
  full_description :: string

type_synonym InputPortBase = PortBase

record OutputPortPrerequisite =
  child_subsystem :: "SubsystemIndex option"
  dependency :: DependencyTicket

record OutputPortBase = PortBase +
  prerequisite :: OutputPortPrerequisite

text \<open>
  \<^verbatim>\<open>SystemParentServiceInterface\<close>, the capability of the enclosing Diagram: its three
  virtual functions as fields. Of the root System only the id is read.
\<close>

record SystemParentServiceInterface =
  GetParentPathname :: string
  GetRootSystemBase_system_id :: SystemId
  EvalConnectedSubsystemInputPort ::
    "ContextBase \<Rightarrow> InputPortBase \<Rightarrow> error + AbstractValue option"

text \<open>
  \<^verbatim>\<open>SystemBase\<close>. \<^verbatim>\<open>GetSystemName()\<close> and \<^verbatim>\<open>GetSystemType()\<close> are defined in the header
  and carried as fields, as are the values of the static well-known tickets
  \<^verbatim>\<open>xd_ticket()\<close>, \<^verbatim>\<open>xa_ticket()\<close>, \<^verbatim>\<open>pn_ticket()\<close>, \<^verbatim>\<open>pa_ticket()\<close> and the virtual
  \<^verbatim>\<open>MakeFixInputPortTypeChecker\<close>.
\<close>

record SystemBase =
  name :: string
  GetSystemName :: string
  GetSystemType :: string
  system_id :: SystemId
  parent_service :: "SystemParentServiceInterface option"
  input_ports :: "InputPortBase list"
  output_ports :: "OutputPortBase list"
  cache_entries :: "CacheEntry list"
  discrete_state_tickets :: "TrackerInfo list"
  abstract_state_tickets :: "TrackerInfo list"
  numeric_parameter_tickets :: "TrackerInfo list"
  abstract_parameter_tickets :: "TrackerInfo list"
  next_available_ticket :: DependencyTicket
  xd_ticket :: DependencyTicket
  xa_ticket :: DependencyTicket
  pn_ticket :: DependencyTicket
  pa_ticket :: DependencyTicket
  MakeFixInputPortTypeChecker :: "InputPortIndex \<Rightarrow> AbstractValue \<Rightarrow> bool"

definition num_cache_entries :: "SystemBase \<Rightarrow> nat" where
  "num_cache_entries s = length (cache_entries s)"

definition num_input_ports :: "SystemBase \<Rightarrow> nat" where
  "num_input_ports s = length (input_ports s)"

section \<open>Declaring cache entries\<close>

text \<open>
  Modelled from the spec: \<^verbatim>\<open>assign_next_dependency_ticket()\<close> is defined in
  system_base.h, which is not part of the sources. It returns the next unused ticket and
  advances the counter (strictly ascending, irreversible).
\<close>

definition assign_next_dependency_ticket :: "SystemBase \<Rightarrow> DependencyTicket \<times> SystemBase" where
  "assign_next_dependency_ticket s =
     (next_available_ticket s, s\<lparr>next_available_ticket := Suc (next_available_ticket s)\<rparr>)"

text \<open>
  Modelled from the spec: the constructor of \<^verbatim>\<open>CacheEntry\<close> is defined in cache_entry.cc,
  which is not part of the sources. It fails when the prerequisite set is empty (the comment
  in \<^verbatim>\<open>DeclareCacheEntryWithKnownTicket\<close> says it throws a logic error; the text of the
  message is not given there) and otherwise stores its arguments; a new entry is not
  disabled by default.
\<close>

definition empty_prerequisites_message :: string where
  "empty_prerequisites_message = ''Cannot create a CacheEntry with an empty prerequisites list''"

definition new_CacheEntry ::
  "SystemId \<Rightarrow> CacheIndex \<Rightarrow> DependencyTicket \<Rightarrow> string \<Rightarrow> ValueProducer \<Rightarrow>
   DependencyTicket fset \<Rightarrow> error + CacheEntry" where
  "new_CacheEntry owner index known_ticket description producer prerequisites_of_calc =
     (if prerequisites_of_calc = {||} then Inl (logic_error empty_prerequisites_message)
      else Inr \<lparr>owning_system = owner, cache_index = index, entry_ticket = known_ticket,
                entry_description = description, value_producer = producer,
                prerequisites = prerequisites_of_calc, is_disabled_by_default = False\<rparr>)"

text \<open>
  \<^verbatim>\<open>DeclareCacheEntryWithKnownTicket\<close>: the index is the current number of entries; the
  entry is constructed first, so a throwing constructor leaves \<^verbatim>\<open>cache_entries_\<close> as it
  was; the result is the element at the back of the list. The System after the call is
  returned beside the result, also when the call throws.
\<close>

definition DeclareCacheEntryWithKnownTicket ::
  "DependencyTicket \<Rightarrow> string \<Rightarrow> ValueProducer \<Rightarrow> DependencyTicket fset \<Rightarrow> SystemBase \<Rightarrow>
   (error + CacheEntry) \<times> SystemBase" where
  "DeclareCacheEntryWithKnownTicket known_ticket description producer prerequisites_of_calc s =
     (let index = num_cache_entries s in
      case new_CacheEntry (system_id s) index known_ticket description producer
             prerequisites_of_calc of
        Inl e \<Rightarrow> (Inl e, s)
      | Inr entry \<Rightarrow>
          (let s' = s\<lparr>cache_entries := cache_entries s @ [entry]\<rparr>
           in (Inr (last (cache_entries s')), s')))"

text \<open>
  \<^verbatim>\<open>DeclareCacheEntry\<close>: the ticket argument is evaluated, and so the counter advanced,
  before the callee is entered.
\<close>

definition DeclareCacheEntry ::
  "string \<Rightarrow> ValueProducer \<Rightarrow> DependencyTicket fset \<Rightarrow> SystemBase \<Rightarrow>
   (error + CacheEntry) \<times> SystemBase" where
  "DeclareCacheEntry description producer prerequisites_of_calc s =
     (case assign_next_dependency_ticket s of
        (known_ticket, s1) \<Rightarrow>
          DeclareCacheEntryWithKnownTicket known_ticket description producer
            prerequisites_of_calc s1)"

text \<open>
  The reading of claim C9, in its own words: allocate the next fresh ticket of the System,
  then apply the known-ticket variant to it.
\<close>

definition DeclareCacheEntry_with_fresh_ticket ::
  "string \<Rightarrow> ValueProducer \<Rightarrow> DependencyTicket fset \<Rightarrow> SystemBase \<Rightarrow>
   (error + CacheEntry) \<times> SystemBase" where
  "DeclareCacheEntry_with_fresh_ticket description producer prerequisites_of_calc s =
     DeclareCacheEntryWithKnownTicket (next_available_ticket s) description producer
       prerequisites_of_calc (s\<lparr>next_available_ticket := next_available_ticket s + 1\<rparr>)"

section \<open>Diagnostic messages\<close>

text \<open>
  \<^verbatim>\<open>fmt::format\<close> for the format strings of this unit, whose only replacement field is
  \<^verbatim>\<open>{}\<close>: each field is replaced by the next argument, already rendered as text.
\<close>

fun fmt_format :: "string \<Rightarrow> string list \<Rightarrow> string" where
  "fmt_format [] args = []"
| "fmt_format [c] args = [c]"
| "fmt_format (c # d # rest) args =
     (if c = CHR ''{'' \<and> d = CHR ''}''
      then (case args of [] \<Rightarrow> fmt_format rest [] | a # as \<Rightarrow> a @ fmt_format rest as)
      else c # fmt_format (d # rest) args)"

text \<open>How \<^verbatim>\<open>{}\<close> renders an integer: decimal digits, with a minus sign when negative.\<close>

function to_decimal :: "nat \<Rightarrow> string" where
  "to_decimal n =
     (if n < 10 then [''0123456789'' ! n]
      else to_decimal (n div 10) @ [''0123456789'' ! (n mod 10)])"
  by pat_completeness auto
termination
  by (relation "measure (\<lambda>n. n)") auto

declare to_decimal.simps [simp del]

definition format_int :: "int \<Rightarrow> string" where
  "format_int i = (if i < 0 then CHR ''-'' # to_decimal (nat (- i)) else to_decimal (nat i))"

definition FmtFunc :: "string \<Rightarrow> string" where
  "FmtFunc func = fmt_format ''System::{}()'' [func]"

text \<open>
  Modelled from the spec: \<^verbatim>\<open>SystemMessageInterface::path_separator()\<close> is declared in a
  header that is not part of the sources; the spec calls it a fixed separator, and the
  comment in \<^verbatim>\<open>GetMemoryObjectName\<close> says it is made of colons.
\<close>

definition path_separator :: string where
  "path_separator = ''::''"

definition GetSystemPathname :: "SystemBase \<Rightarrow> string" where
  "GetSystemPathname s =
     (let parent_path = (case parent_service s of
                           Some parent \<Rightarrow> GetParentPathname parent
                         | None \<Rightarrow> [])
      in parent_path @ path_separator @ GetSystemName s)"

text \<open>
  The functions named \<^verbatim>\<open>Throw...\<close> return \<^verbatim>\<open>void\<close>; their result type here is that of a
  call that may throw or return.
\<close>

definition ThrowNegativePortIndex :: "SystemBase \<Rightarrow> string \<Rightarrow> int \<Rightarrow> error + unit" where
  "ThrowNegativePortIndex s func port_index =
     (if \<not> port_index < 0 then Inl demand_failed
      else Inl (out_of_range
        (fmt_format ''{}: negative port index {} is illegal. (System {})''
           [FmtFunc func, format_int port_index, GetSystemPathname s])))"

definition ThrowInputPortIndexOutOfRange ::
  "SystemBase \<Rightarrow> string \<Rightarrow> InputPortIndex \<Rightarrow> error + unit" where
  "ThrowInputPortIndexOutOfRange s func port =
     Inl (out_of_range
       (fmt_format
          (''{}: there is no input port with index {} because there '' @
           ''are only {} input ports in system {}.'')
          [FmtFunc func, format_int (int port), format_int (int (num_input_ports s)),
           GetSystemPathname s]))"

section \<open>Deprecation warnings\<close>

text \<open>
  The state shared by all Systems of the process: the function-local static
  \<^verbatim>\<open>g_warned_hash\<close> (guarded by \<^verbatim>\<open>g_mutex\<close>) and the warnings written to \<^verbatim>\<open>drake::log()\<close>,
  oldest first.
\<close>

record process_state =
  g_warned_hash :: "64 word set"
  logged_warnings :: "string list"

text \<open>
  \<^verbatim>\<open>FNV1aHasher\<close> and \<^verbatim>\<open>hash_append\<close> are declared in drake/common/hash.h, which is not part
  of the sources: the key computed from the System type, the direction and the port name is
  a parameter of the model.
\<close>

type_synonym hasher = "string \<Rightarrow> bool \<Rightarrow> string \<Rightarrow> 64 word"

text \<open>
  \<^verbatim>\<open>std::vector::at\<close> with an \<^verbatim>\<open>int\<close> argument: a negative \<^verbatim>\<open>int\<close> converts to a \<^verbatim>\<open>size_t\<close>
  beyond any size. The text of the exception is the standard library's.
\<close>

definition vector_at :: "'a list \<Rightarrow> int \<Rightarrow> error + 'a" where
  "vector_at xs i =
     (if 0 \<le> i \<and> i < int (length xs) then Inr (xs ! nat i)
      else Inl (out_of_range ''vector::at''))"

text \<open>
  The part of \<^verbatim>\<open>WarnPortDeprecation\<close> after the port has been located: what happens to the
  port's flag (\<^verbatim>\<open>exchange(true)\<close>) and to the process state. The result is the port after
  the call and the process state after the call.
\<close>

definition warn_port ::
  "hasher \<Rightarrow> string \<Rightarrow> bool \<Rightarrow> ('a PortBase_scheme) \<Rightarrow> process_state \<Rightarrow>
   (error + unit) \<times> ('a PortBase_scheme) \<times> process_state" where
  "warn_port hash system_type is_input port g =
     (if deprecation port = None then (Inl demand_failed, port, g)
      else
        let had_already_warned = deprecation_already_warned port;
            port' = port\<lparr>deprecation_already_warned := True\<rparr>
        in if had_already_warned then (Inr (), port', g)
           else
             let key = hash system_type is_input (port_name port);
                 inserted = (key \<notin> g_warned_hash g);
                 g' = g\<lparr>g_warned_hash := insert key (g_warned_hash g)\<rparr>
             in if \<not> inserted then (Inr (), port', g')
                else
                  let description = full_description port;
                      deprecation_text = the (deprecation port);
                      message = (if length deprecation_text \<noteq> 0 then deprecation_text
                                 else ''no deprecation details were provided'')
                  in (Inr (), port',
                      g'\<lparr>logged_warnings := logged_warnings g' @
                           [fmt_format ''{} is deprecated: {}'' [description, message]]\<rparr>))"

definition WarnPortDeprecation ::
  "hasher \<Rightarrow> bool \<Rightarrow> int \<Rightarrow> SystemBase \<Rightarrow> process_state \<Rightarrow>
   (error + unit) \<times> SystemBase \<times> process_state" where
  "WarnPortDeprecation hash is_input port_index s g =
     (if is_input then
        (case vector_at (input_ports s) port_index of
           Inl e \<Rightarrow> (Inl e, s, g)
         | Inr port \<Rightarrow>
             (case warn_port hash (GetSystemType s) is_input port g of
                (r, port', g') \<Rightarrow>
                  (r, s\<lparr>input_ports := (input_ports s)[nat port_index := port']\<rparr>, g')))
      else
        (case vector_at (output_ports s) port_index of
           Inl e \<Rightarrow> (Inl e, s, g)
         | Inr port \<Rightarrow>
             (case warn_port hash (GetSystemType s) is_input port g of
                (r, port', g') \<Rightarrow>
                  (r, s\<lparr>output_ports := (output_ports s)[nat port_index := port']\<rparr>, g'))))"

section \<open>Evaluating an input port\<close>

text \<open>
  Modelled from the spec: \<^verbatim>\<open>ContextBase::MaybeGetFixedInputPortValue\<close> and
  \<^verbatim>\<open>ContextBase::is_root_context\<close> are declared in context_base.h, which is not part of the
  sources. The first gives the caller-fixed value the Context holds for the port, if any;
  a Context is root when it has no parent Context.
\<close>

definition MaybeGetFixedInputPortValue ::
  "ContextBase \<Rightarrow> InputPortIndex \<Rightarrow> AbstractValue option" where
  "MaybeGetFixedInputPortValue context port_index = input_port_values (base context) port_index"

definition is_root_context :: "ContextBase \<Rightarrow> bool" where
  "is_root_context context = (get_parent_base context = None)"

definition get_input_port_base :: "SystemBase \<Rightarrow> InputPortIndex \<Rightarrow> InputPortBase" where
  "get_input_port_base s port_index = input_ports s ! port_index"

text \<open>
  \<^verbatim>\<open>EvalAbstractInputImpl\<close>. A null result is \<open>None\<close>. The function is \<^verbatim>\<open>const\<close> but reaches
  the port's warned flag and the process state through \<^verbatim>\<open>WarnPortDeprecation\<close>, so both are
  returned. The parent's \<^verbatim>\<open>EvalConnectedSubsystemInputPort\<close> is the field of the parent service.
\<close>

definition EvalAbstractInputImpl ::
  "hasher \<Rightarrow> string \<Rightarrow> ContextBase \<Rightarrow> InputPortIndex \<Rightarrow> SystemBase \<Rightarrow> process_state \<Rightarrow>
   (error + AbstractValue option) \<times> SystemBase \<times> process_state" where
  "EvalAbstractInputImpl hash func context port_index s g =
     (case (if port_index \<ge> num_input_ports s
            then ThrowInputPortIndexOutOfRange s func port_index else Inr ()) of
        Inl e \<Rightarrow> (Inl e, s, g)
      | Inr _ \<Rightarrow>
        (case (if deprecation (input_ports s ! port_index) \<noteq> None
               then WarnPortDeprecation hash True (int port_index) s g
               else (Inr (), s, g)) of
           (Inl e, s1, g1) \<Rightarrow> (Inl e, s1, g1)
         | (Inr _, s1, g1) \<Rightarrow>
           (case MaybeGetFixedInputPortValue context port_index of
              Some free_port_value \<Rightarrow> (Inr (Some free_port_value), s1, g1)
            | None \<Rightarrow>
              (case parent_service s1 of
                 None \<Rightarrow> (Inr None, s1, g1)
               | Some parent \<Rightarrow>
                   if is_root_context context then (Inr None, s1, g1)
                   else (EvalConnectedSubsystemInputPort parent (the (get_parent_base context))
                           (get_input_port_base s1 port_index), s1, g1)))))"

section \<open>Initializing a Context\<close>

text \<open>
  A member function that works on a Context returns what it throws, or its result, beside
  the Context as the call leaves it; a throwing call keeps what it had written before.
  Statements in sequence and the range-based \<^verbatim>\<open>for\<close> loop stop at the first throw.
\<close>

fun for_each ::
  "('x \<Rightarrow> 'st \<Rightarrow> (error + unit) \<times> 'st) \<Rightarrow> 'x list \<Rightarrow> 'st \<Rightarrow> (error + unit) \<times> 'st" where
  "for_each body [] c = (Inr (), c)"
| "for_each body (x # xs) c =
     (case body x c of
        (Inl e, c') \<Rightarrow> (Inl e, c')
      | (Inr _, c') \<Rightarrow> for_each body xs c')"

definition in_sequence ::
  "('st \<Rightarrow> (error + unit) \<times> 'st) list \<Rightarrow> 'st \<Rightarrow> (error + unit) \<times> 'st" where
  "in_sequence statements = for_each (\<lambda>statement. statement) statements"

text \<open>
  Modelled from the spec: the member functions of \<^verbatim>\<open>DependencyGraph\<close> and
  \<^verbatim>\<open>DependencyTracker\<close> are defined in dependency_tracker.cc, which is not part of the
  sources. Creating a tracker fails if a tracker for that ticket already exists; looking a
  tracker up by ticket needs the tracker to exist; subscribing records a directed edge from
  the prerequisite to the subscriber. The two trackers of a subscription are passed by their
  tickets; the callers hold references to them, obtained by creation or lookup.
\<close>

definition has_tracker :: "context_data \<Rightarrow> DependencyTicket \<Rightarrow> bool" where
  "has_tracker c t = (trackers (graph c) t \<noteq> None)"

definition CreateNewDependencyTracker ::
  "DependencyTicket \<Rightarrow> string \<Rightarrow> context_data \<Rightarrow> (error + unit) \<times> context_data" where
  "CreateNewDependencyTracker t description c =
     (if has_tracker c t then (Inl demand_failed, c)
      else (Inr (), c\<lparr>graph := (graph c)\<lparr>trackers := (trackers (graph c))(t \<mapsto> description)\<rparr>\<rparr>))"

definition get_mutable_tracker ::
  "DependencyTicket \<Rightarrow> context_data \<Rightarrow> (error + unit) \<times> context_data" where
  "get_mutable_tracker t c = (if has_tracker c t then (Inr (), c) else (Inl demand_failed, c))"

definition SubscribeToPrerequisite ::
  "DependencyTicket \<Rightarrow> DependencyTicket \<Rightarrow> context_data \<Rightarrow> (error + unit) \<times> context_data" where
  "SubscribeToPrerequisite subscriber source c =
     (Inr (), c\<lparr>graph := (graph c)\<lparr>subscriptions :=
                  subscriptions (graph c) @ [(source, subscriber)]\<rparr>\<rparr>)"

text \<open>
  Modelled from the spec: the functions of \<^verbatim>\<open>SystemBaseContextBaseAttorney\<close> forward to
  private members of \<^verbatim>\<open>ContextBase\<close> defined in context_base.h and context_base.cc, which
  are not part of the sources. They record the name and identity of the System, register a
  ticket of one of the four source kinds, add an input port (create and register its tracker,
  attach the type checker, subscribe the tracker of all input ports to it), add an output
  port (create its tracker and wire the prerequisite it declares within this System), read
  and set the initialized flag. The descriptions given to the port trackers follow the
  names \<^verbatim>\<open>u\<close> and \<^verbatim>\<open>y\<close> of the comments in \<^verbatim>\<open>InitializeContextBase\<close>.
\<close>

definition set_system_name :: "string \<Rightarrow> context_data \<Rightarrow> (error + unit) \<times> context_data" where
  "set_system_name system_name c = (Inr (), c\<lparr>context_system_name := system_name\<rparr>)"

definition set_system_id :: "SystemId \<Rightarrow> context_data \<Rightarrow> (error + unit) \<times> context_data" where
  "set_system_id system_id_of_owner c = (Inr (), c\<lparr>context_system_id := system_id_of_owner\<rparr>)"

definition AddDiscreteStateTicket ::
  "DependencyTicket \<Rightarrow> context_data \<Rightarrow> (error + unit) \<times> context_data" where
  "AddDiscreteStateTicket t c =
     (Inr (), c\<lparr>context_discrete_state_tickets := context_discrete_state_tickets c @ [t]\<rparr>)"

definition AddAbstractStateTicket ::
  "DependencyTicket \<Rightarrow> context_data \<Rightarrow> (error + unit) \<times> context_data" where
  "AddAbstractStateTicket t c =
     (Inr (), c\<lparr>context_abstract_state_tickets := context_abstract_state_tickets c @ [t]\<rparr>)"

definition AddNumericParameterTicket ::
  "DependencyTicket \<Rightarrow> context_data \<Rightarrow> (error + unit) \<times> context_data" where
  "AddNumericParameterTicket t c =
     (Inr (), c\<lparr>context_numeric_parameter_tickets := context_numeric_parameter_tickets c @ [t]\<rparr>)"

definition AddAbstractParameterTicket ::
  "DependencyTicket \<Rightarrow> context_data \<Rightarrow> (error + unit) \<times> context_data" where
  "AddAbstractParameterTicket t c =
     (Inr (), c\<lparr>context_abstract_parameter_tickets :=
                  context_abstract_parameter_tickets c @ [t]\<rparr>)"

definition AddInputPort ::
  "InputPortIndex \<Rightarrow> DependencyTicket \<Rightarrow> (AbstractValue \<Rightarrow> bool) \<Rightarrow> context_data \<Rightarrow>
   (error + unit) \<times> context_data" where
  "AddInputPort expected_index t fixed_input_type_checker c =
     in_sequence
       [CreateNewDependencyTracker t (''u_'' @ format_int (int expected_index)),
        (\<lambda>c. (Inr (), c\<lparr>input_port_tickets := input_port_tickets c @ [t],
                          input_port_type_checkers :=
                            input_port_type_checkers c @ [fixed_input_type_checker]\<rparr>)),
        (\<lambda>c. get_mutable_tracker (all_input_ports_ticket c) c),
        (\<lambda>c. SubscribeToPrerequisite (all_input_ports_ticket c) t c)] c"

definition AddOutputPort ::
  "OutputPortIndex \<Rightarrow> DependencyTicket \<Rightarrow> OutputPortPrerequisite \<Rightarrow> context_data \<Rightarrow>
   (error + unit) \<times> context_data" where
  "AddOutputPort expected_index t prerequisite_of_port c =
     in_sequence
       ([CreateNewDependencyTracker t (''y_'' @ format_int (int expected_index)),
         (\<lambda>c. (Inr (), c\<lparr>output_port_tickets := output_port_tickets c @ [t]\<rparr>))] @
        (if child_subsystem prerequisite_of_port = None
         then [get_mutable_tracker (dependency prerequisite_of_port),
               SubscribeToPrerequisite t (dependency prerequisite_of_port)]
         else [])) c"

definition mark_context_base_initialized :: "context_data \<Rightarrow> (error + unit) \<times> context_data" where
  "mark_context_base_initialized c = (Inr (), c\<lparr>is_context_base_initialized := True\<rparr>)"

text \<open>
  Modelled from the spec: the member functions of \<^verbatim>\<open>Cache\<close> and \<^verbatim>\<open>CacheEntryValue\<close> are
  defined in cache.h and cache.cc, which are not part of the sources. There is one slot per
  cache entry, so creating a value needs the slot at the index to be free; the new value
  holds nothing yet and has caching enabled (an entry is disabled only by its
  disabled-by-default flag); its tracker is created under the entry's ticket and subscribed
  to exactly the trackers named by the prerequisite tickets, in the order of the set. The
  reference to the new value that the source keeps is the index of the slot.
\<close>

definition CreateNewCacheEntryValue ::
  "CacheIndex \<Rightarrow> DependencyTicket \<Rightarrow> string \<Rightarrow> DependencyTicket fset \<Rightarrow> context_data \<Rightarrow>
   (error + unit) \<times> context_data" where
  "CreateNewCacheEntryValue index t description prerequisites_of_entry c =
     (if cache c index \<noteq> None then (Inl demand_failed, c)
      else
        in_sequence
          [(\<lambda>c. (Inr (), c\<lparr>cache := (cache c)(index \<mapsto>
                     \<lparr>value_description = description, value_cache_index = index,
                      value_ticket = t, held_value = None, caching_disabled = False\<rparr>)\<rparr>)),
           CreateNewDependencyTracker t (''cache '' @ description),
           for_each (\<lambda>prereq. in_sequence [get_mutable_tracker prereq,
                                            SubscribeToPrerequisite t prereq])
             (sorted_list_of_fset prerequisites_of_entry)] c)"

definition on_cache_value ::
  "CacheIndex \<Rightarrow> (CacheEntryValue \<Rightarrow> CacheEntryValue) \<Rightarrow> context_data \<Rightarrow>
   (error + unit) \<times> context_data" where
  "on_cache_value index change c =
     (Inr (), c\<lparr>cache := (cache c)(index := map_option change (cache c index))\<rparr>)"

definition SetInitialValue ::
  "CacheIndex \<Rightarrow> AbstractValue \<Rightarrow> context_data \<Rightarrow> (error + unit) \<times> context_data" where
  "SetInitialValue index init_value =
     on_cache_value index (\<lambda>cache_value. cache_value\<lparr>held_value := Some init_value\<rparr>)"

definition disable_caching :: "CacheIndex \<Rightarrow> context_data \<Rightarrow> (error + unit) \<times> context_data" where
  "disable_caching index =
     on_cache_value index (\<lambda>cache_value. cache_value\<lparr>caching_disabled := True\<rparr>)"

text \<open>
  Modelled from the spec: \<^verbatim>\<open>get_cache_entry\<close> and \<^verbatim>\<open>CacheEntry::Allocate\<close> are defined in
  system_base.h and cache_entry.h, which are not part of the sources: the entry stored at an
  index, and the value produced by the allocate capability of the entry.
\<close>

definition get_cache_entry :: "SystemBase \<Rightarrow> CacheIndex \<Rightarrow> CacheEntry" where
  "get_cache_entry s index = cache_entries s ! index"

definition Allocate :: "CacheEntry \<Rightarrow> AbstractValue" where
  "Allocate entry = allocate (value_producer entry) ()"

text \<open>
  The lambda \<^verbatim>\<open>make_trackers\<close> of \<^verbatim>\<open>CreateSourceTrackers\<close>: the subscriber is looked up
  first; then, for each declared ticket, a tracker is created, the ticket is registered and
  the subscriber is subscribed to the new tracker.
\<close>

definition make_trackers ::
  "DependencyTicket \<Rightarrow> TrackerInfo list \<Rightarrow>
   (DependencyTicket \<Rightarrow> context_data \<Rightarrow> (error + unit) \<times> context_data) \<Rightarrow>
   context_data \<Rightarrow> (error + unit) \<times> context_data" where
  "make_trackers subscriber_ticket system_ticket_info add_ticket_to_context =
     in_sequence
       [get_mutable_tracker subscriber_ticket,
        for_each (\<lambda>info. in_sequence
                    [CreateNewDependencyTracker (info_ticket info) (info_description info),
                     add_ticket_to_context (info_ticket info),
                     SubscribeToPrerequisite subscriber_ticket (info_ticket info)])
          system_ticket_info]"

definition CreateSourceTrackers :: "SystemBase \<Rightarrow> context_data \<Rightarrow> (error + unit) \<times> context_data" where
  "CreateSourceTrackers s =
     in_sequence
       [make_trackers (xd_ticket s) (discrete_state_tickets s) AddDiscreteStateTicket,
        make_trackers (xa_ticket s) (abstract_state_tickets s) AddAbstractStateTicket,
        make_trackers (pn_ticket s) (numeric_parameter_tickets s) AddNumericParameterTicket,
        make_trackers (pa_ticket s) (abstract_parameter_tickets s) AddAbstractParameterTicket,
        for_each (\<lambda>iport. AddInputPort (get_index iport) (port_ticket iport)
                    (MakeFixInputPortTypeChecker s (get_index iport)))
          (input_ports s)]"

text \<open>
  The body of the loop over the cache entries of \<^verbatim>\<open>InitializeContextBase\<close>, once the
  entry has been fetched.
\<close>

definition initialize_cache_entry ::
  "CacheEntry \<Rightarrow> context_data \<Rightarrow> (error + unit) \<times> context_data" where
  "initialize_cache_entry entry =
     in_sequence
       ([CreateNewCacheEntryValue (cache_index entry) (entry_ticket entry)
           (entry_description entry) (prerequisites entry),
         SetInitialValue (cache_index entry) (Allocate entry)] @
        (if is_disabled_by_default entry then [disable_caching (cache_index entry)] else []))"

text \<open>
  \<^verbatim>\<open>InitializeContextBase\<close>. The argument is a pointer, so it may be null. The
  statements after the two \<^verbatim>\<open>DRAKE_DEMAND\<close>s work on the Context itself; the pointer to the
  parent Context is not touched.
\<close>

definition initialization_statements ::
  "SystemBase \<Rightarrow> context_data \<Rightarrow> (error + unit) \<times> context_data" where
  "initialization_statements s =
     in_sequence
       [set_system_name (name s),
        set_system_id (system_id s),
        CreateSourceTrackers s,
        for_each (\<lambda>index. initialize_cache_entry (get_cache_entry s index))
          [0..<num_cache_entries s],
        for_each (\<lambda>oport. AddOutputPort (get_index oport) (port_ticket oport)
                    (prerequisite oport))
          (output_ports s),
        mark_context_base_initialized]"

definition InitializeContextBase ::
  "SystemBase \<Rightarrow> ContextBase option \<Rightarrow> (error + unit) \<times> ContextBase option" where
  "InitializeContextBase s context_ptr =
     (case context_ptr of
        None \<Rightarrow> (Inl demand_failed, context_ptr)
      | Some context \<Rightarrow>
          if \<not> (\<not> is_context_base_initialized (base context))
          then (Inl demand_failed, context_ptr)
          else
            (case initialization_statements s (base context) of
               (r, context') \<Rightarrow> (r, Some (ContextBase context' (get_parent_base context)))))"

section \<open>Predicates used in the statements about initialization\<close>

text \<open>
  The tickets a System declares, in the order in which \<^verbatim>\<open>InitializeContextBase\<close> creates
  their trackers: the four kinds of sources, the input ports, the cache entries, the output
  ports.
\<close>

definition source_tickets :: "SystemBase \<Rightarrow> DependencyTicket list" where
  "source_tickets s =
     map info_ticket (discrete_state_tickets s) @ map info_ticket (abstract_state_tickets s) @
     map info_ticket (numeric_parameter_tickets s) @
     map info_ticket (abstract_parameter_tickets s)"

definition declared_tickets :: "SystemBase \<Rightarrow> DependencyTicket list" where
  "declared_tickets s =
     source_tickets s @ map port_ticket (input_ports s) @
     map entry_ticket (cache_entries s) @ map port_ticket (output_ports s)"

text \<open>
  Every cache entry names as prerequisites only tickets that are known when its turn comes:
  those known at the start and those of the entries before it.
\<close>

fun prerequisites_known :: "DependencyTicket set \<Rightarrow> CacheEntry list \<Rightarrow> bool" where
  "prerequisites_known known [] = True"
| "prerequisites_known known (entry # entries) =
     (fset (prerequisites entry) \<subseteq> known
      \<and> prerequisites_known (insert (entry_ticket entry) known) entries)"

text \<open>
  A Context on which initialization for the System goes through: it is not initialized; it
  has the trackers of the well-known tickets that get subscribed; the System's declared
  tickets are distinct and have no tracker yet; the indices of the cache entries are
  distinct and their slots free; the prerequisites of the cache entries are known in time;
  and an output port whose prerequisite lies within this System names a ticket of a source,
  an input port or a cache entry.
\<close>

definition fresh_context_for :: "SystemBase \<Rightarrow> context_data \<Rightarrow> bool" where
  "fresh_context_for s c \<longleftrightarrow>
     \<not> is_context_base_initialized c
     \<and> {xd_ticket s, xa_ticket s, pn_ticket s, pa_ticket s, all_input_ports_ticket c}
           \<subseteq> dom (trackers (graph c))
     \<and> distinct (declared_tickets s)
     \<and> set (declared_tickets s) \<inter> dom (trackers (graph c)) = {}
     \<and> distinct (map cache_index (cache_entries s))
     \<and> set (map cache_index (cache_entries s)) \<inter> dom (cache c) = {}
     \<and> prerequisites_known
           (dom (trackers (graph c)) \<union> set (source_tickets s) \<union>
            set (map port_ticket (input_ports s)))
           (cache_entries s)
     \<and> list_all (\<lambda>oport. child_subsystem (prerequisite oport) \<noteq> None
                   \<or> dependency (prerequisite oport)
                       \<in> dom (trackers (graph c)) \<union> set (source_tickets s) \<union>
                          set (map port_ticket (input_ports s)) \<union>
                          set (map entry_ticket (cache_entries s)))
           (output_ports s)"

text \<open>The cache-entry value that initialization leaves for a cache entry.\<close>

definition seeded_value :: "CacheEntry \<Rightarrow> CacheEntryValue" where
  "seeded_value entry =
     \<lparr>value_description = entry_description entry, value_cache_index = cache_index entry,
      value_ticket = entry_ticket entry, held_value = Some (Allocate entry),
      caching_disabled = is_disabled_by_default entry\<rparr>"

text \<open>
  For the proofs: what a Context has trackers and cache slots for; a call that, from any
  state satisfying the first predicate, returns normally in a state satisfying the second;
  and a call that leaves a component of the state as it is, whether it throws or not.
\<close>

definition shape :: "DependencyTicket set \<Rightarrow> CacheIndex set \<Rightarrow> DependencyTicket \<Rightarrow> context_data \<Rightarrow> bool" where
  "shape K D u c \<longleftrightarrow>
     dom (trackers (graph c)) = K \<and> dom (cache c) = D \<and> all_input_ports_ticket c = u"

definition establishes ::
  "('st \<Rightarrow> bool) \<Rightarrow> ('st \<Rightarrow> (error + unit) \<times> 'st) \<Rightarrow> ('st \<Rightarrow> bool) \<Rightarrow> bool" where
  "establishes P m Q \<longleftrightarrow> (\<forall>c. P c \<longrightarrow> fst (m c) = Inr () \<and> Q (snd (m c)))"

definition keeps :: "('st \<Rightarrow> 'a) \<Rightarrow> ('st \<Rightarrow> (error + unit) \<times> 'st) \<Rightarrow> bool" where
  "keeps f m \<longleftrightarrow> (\<forall>c. f (snd (m c)) = f c)"

section \<open>Diagnosing a Context that does not belong to the System\<close>

definition info_link :: string where
  "info_link =
     ''For more information about Context-System mismatches, see '' @
     ''https://drake.mit.edu/'' @
     ''troubleshooting.html#framework-context-system-mismatch''"

text \<open>The loop of \<^verbatim>\<open>ThrowValidateContextMismatch\<close> that follows the parent pointers up.\<close>

fun root_context :: "ContextBase \<Rightarrow> ContextBase" where
  "root_context (ContextBase d None) = ContextBase d None"
| "root_context (ContextBase d (Some parent)) = root_context parent"

text \<open>
  Modelled from the spec: \<^verbatim>\<open>ContextBase::GetSystemPathname\<close> is defined in context_base.cc,
  which is not part of the sources. It walks the parent links and concatenates each level's
  name with the separator.
\<close>

fun Context_GetSystemPathname :: "ContextBase \<Rightarrow> string" where
  "Context_GetSystemPathname (ContextBase d None) = path_separator @ context_system_name d"
| "Context_GetSystemPathname (ContextBase d (Some parent)) =
     Context_GetSystemPathname parent @ path_separator @ context_system_name d"

definition get_system_id :: "ContextBase \<Rightarrow> SystemId" where
  "get_system_id context = context_system_id (base context)"

definition ThrowValidateContextMismatch :: "SystemBase \<Rightarrow> ContextBase \<Rightarrow> error + unit" where
  "ThrowValidateContextMismatch s context =
     (case (case parent_service s of
              Some parent \<Rightarrow>
                (let root_id = GetRootSystemBase_system_id parent in
                 if get_system_id context = root_id
                 then Inl (logic_error (fmt_format
                   (''A function call on a {} system named '{}' was passed the root '' @
                    ''Diagram's Context instead of the appropriate subsystem Context. '' @
                    ''Use GetMyContextFromRoot() or similar to acquire the appropriate '' @
                    ''subsystem Context.\<newline>{}'')
                   [GetSystemType s, GetSystemPathname s, info_link]))
                 else Inr ())
            | None \<Rightarrow> Inr ()) of
        Inl e \<Rightarrow> Inl e
      | Inr _ \<Rightarrow>
          if get_system_id (root_context context) = system_id s
          then Inl (logic_error (fmt_format
            (''A function call on the root Diagram was passed a subcontext '' @
             ''associated with its subsystem named '{}' instead of the root '' @
             ''context. When calling a function on a the root Digram, you must '' @
             ''pass a reference to the root Context, not a subcontext.\<newline>{}'')
            [Context_GetSystemPathname context, info_link]))
          else Inl (logic_error (fmt_format
            (''A function call on a {} system named '{}' was passed the Context of '' @
             ''a system named '{}' instead of the appropriate subsystem Context.\<newline>{}'')
            [GetSystemType s, GetSystemPathname s, Context_GetSystemPathname context,
             info_link])))"

text \<open>
  For the statement of the diagnosis: the test of the first branch (the System has a parent
  and the Context passed carries the id of the root System), and the three texts with the
  arguments in place.
\<close>

definition is_context_of_root_system :: "SystemBase \<Rightarrow> ContextBase \<Rightarrow> bool" where
  "is_context_of_root_system s context =
     (case parent_service s of
        None \<Rightarrow> False
      | Some parent \<Rightarrow> get_system_id context = GetRootSystemBase_system_id parent)"

definition root_context_message :: "SystemBase \<Rightarrow> string" where
  "root_context_message s =
     ''A function call on a '' @ GetSystemType s @ '' system named '' @ [CHR 0x27] @
     GetSystemPathname s @ [CHR 0x27] @
     ('' was passed the root Diagram's Context instead of the appropriate subsystem Context. '' @
      ''Use GetMyContextFromRoot() or similar to acquire the appropriate subsystem Context.\<newline>'') @
     info_link"

definition subcontext_message :: "ContextBase \<Rightarrow> string" where
  "subcontext_message context =
     (''A function call on the root Diagram was passed a subcontext associated with '' @
      ''its subsystem named '') @ [CHR 0x27] @ Context_GetSystemPathname context @ [CHR 0x27] @
     ('' instead of the root context. When calling a function on a the root Digram, you must '' @
      ''pass a reference to the root Context, not a subcontext.\<newline>'') @ info_link"

definition other_context_message :: "SystemBase \<Rightarrow> ContextBase \<Rightarrow> string" where
  "other_context_message s context =
     ''A function call on a '' @ GetSystemType s @ '' system named '' @ [CHR 0x27] @
     GetSystemPathname s @ [CHR 0x27] @
     '' was passed the Context of a system named '' @ [CHR 0x27] @
     Context_GetSystemPathname context @ [CHR 0x27] @
     '' instead of the appropriate subsystem Context.\<newline>'' @ info_link"

section \<open>Sequences of deprecation warnings in one process\<close>

text \<open>
  The process as far as \<^verbatim>\<open>WarnPortDeprecation\<close> sees it: the System objects that exist,
  addressed by position, and the process state. A call names the System object it is made
  on and its two arguments. A call that throws leaves everything as it was (both checks
  come before the first write), and the sequence goes on.
\<close>

record world =
  systems :: "SystemBase list"
  process :: process_state

datatype call = WarnPortDeprecation_call nat bool int

fun step :: "hasher \<Rightarrow> call \<Rightarrow> world \<Rightarrow> world" where
  "step hash (WarnPortDeprecation_call k is_input port_index) w =
     (if k < length (systems w) then
        (case WarnPortDeprecation hash is_input port_index (systems w ! k) (process w) of
           (r, s', g') \<Rightarrow> w\<lparr>systems := (systems w)[k := s'], process := g'\<rparr>)
      else w)"

text \<open>The number of warnings a call writes to the log.\<close>

definition warnings_of_call :: "hasher \<Rightarrow> call \<Rightarrow> world \<Rightarrow> nat" where
  "warnings_of_call hash c w =
     length (logged_warnings (process (step hash c w))) - length (logged_warnings (process w))"

text \<open>
  The combination a call is about: the type of the System declaring the port, the
  direction, and the name of the port; none when the call names no port.
\<close>

fun combination :: "world \<Rightarrow> call \<Rightarrow> (string \<times> bool \<times> string) option" where
  "combination w (WarnPortDeprecation_call k is_input port_index) =
     (if k < length (systems w) then
        (let s = systems w ! k in
         if is_input then
           (case vector_at (input_ports s) port_index of
              Inl e \<Rightarrow> None | Inr port \<Rightarrow> Some (GetSystemType s, is_input, port_name port))
         else
           (case vector_at (output_ports s) port_index of
              Inl e \<Rightarrow> None | Inr port \<Rightarrow> Some (GetSystemType s, is_input, port_name port)))
      else None)"

text \<open>
  The number of warnings that the calls of a sequence about one combination write, the
  calls being made one after the other from the given state.
\<close>

fun warnings_about ::
  "hasher \<Rightarrow> (string \<times> bool \<times> string) \<Rightarrow> call list \<Rightarrow> world \<Rightarrow> nat" where
  "warnings_about hash k [] w = 0"
| "warnings_about hash k (c # cs) w =
     (if combination w c = Some k then warnings_of_call hash c w else 0)
     + warnings_about hash k cs (step hash c w)"

section \<open>A small composition for concrete evaluation\<close>

text \<open>
  A Diagram with id 1 containing a Motor (id 2) and a Sensor (id 3). The Motor has a
  deprecated input port and an undeprecated one, two cache entries and an output port.
\<close>

definition example_hash :: hasher where
  "example_hash system_type is_input port_label =
     of_nat (length system_type) * 64 + of_nat (length port_label) * 2 + (if is_input then 1 else 0)"

definition torque_port :: InputPortBase where
  "torque_port = \<lparr>port_name = ''torque'', get_index = 0, port_ticket = 30,
     deprecation = Some ''use force instead'', deprecation_already_warned = False,
     full_description = ''InputPort[0] (torque) of System ::diagram::motor (Motor)''\<rparr>"

definition speed_port :: InputPortBase where
  "speed_port = \<lparr>port_name = ''speed'', get_index = 1, port_ticket = 31,
     deprecation = None, deprecation_already_warned = False,
     full_description = ''InputPort[1] (speed) of System ::diagram::motor (Motor)''\<rparr>"

definition shaft_port :: OutputPortBase where
  "shaft_port = \<lparr>port_name = ''shaft'', get_index = 0, port_ticket = 34,
     deprecation = None, deprecation_already_warned = False,
     full_description = ''OutputPort[0] (shaft) of System ::diagram::motor (Motor)'',
     prerequisite = \<lparr>child_subsystem = None, dependency = 32\<rparr>\<rparr>"

definition example_producer :: ValueProducer where
  "example_producer = \<lparr>allocate = (\<lambda>_. AbstractValue 0), calc = (\<lambda>_. AbstractValue 5)\<rparr>"

definition other_producer :: ValueProducer where
  "other_producer = \<lparr>allocate = (\<lambda>_. AbstractValue 9), calc = (\<lambda>_. AbstractValue 6)\<rparr>"

definition example_parent :: SystemParentServiceInterface where
  "example_parent = \<lparr>GetParentPathname = ''::diagram'', GetRootSystemBase_system_id = 1,
     EvalConnectedSubsystemInputPort = (\<lambda>parent_context port. Inl (logic_error ''upstream''))\<rparr>"

definition motor :: SystemBase where
  "motor = \<lparr>name = ''motor'', GetSystemName = ''motor'', GetSystemType = ''Motor'',
     system_id = 2, parent_service = Some example_parent,
     input_ports = [torque_port, speed_port], output_ports = [shaft_port],
     cache_entries =
       [\<lparr>owning_system = 2, cache_index = 0, entry_ticket = 32, entry_description = ''pose'',
         value_producer = example_producer, prerequisites = {|7, 30|},
         is_disabled_by_default = False\<rparr>,
        \<lparr>owning_system = 2, cache_index = 1, entry_ticket = 33, entry_description = ''power'',
         value_producer = other_producer, prerequisites = {|32|},
         is_disabled_by_default = True\<rparr>],
     discrete_state_tickets = [\<lparr>info_ticket = 27, info_description = ''discrete state 0''\<rparr>],
     abstract_state_tickets = [],
     numeric_parameter_tickets = [\<lparr>info_ticket = 28, info_description = ''gain''\<rparr>],
     abstract_parameter_tickets = [\<lparr>info_ticket = 29, info_description = ''mode''\<rparr>],
     next_available_ticket = 35,
     xd_ticket = 7, xa_ticket = 8, pn_ticket = 10, pa_ticket = 11,
     MakeFixInputPortTypeChecker = (\<lambda>port_index v. True)\<rparr>"

definition root_diagram :: SystemBase where
  "root_diagram = \<lparr>name = ''diagram'', GetSystemName = ''diagram'', GetSystemType = ''Diagram'',
     system_id = 1, parent_service = None,
     input_ports = [], output_ports = [], cache_entries = [],
     discrete_state_tickets = [], abstract_state_tickets = [],
     numeric_parameter_tickets = [], abstract_parameter_tickets = [],
     next_available_ticket = 27,
     xd_ticket = 7, xa_ticket = 8, pn_ticket = 10, pa_ticket = 11,
     MakeFixInputPortTypeChecker = (\<lambda>port_index v. True)\<rparr>"

text \<open>
  A Context as its constructor leaves it: not initialized, with trackers for the well-known
  tickets only, an empty cache and no ports.
\<close>

definition blank_context_data :: context_data where
  "blank_context_data = \<lparr>context_system_name = [], context_system_id = 0,
     is_context_base_initialized = False,
     graph = \<lparr>trackers = [7 \<mapsto> ''xd'', 8 \<mapsto> ''xa'', 10 \<mapsto> ''pn'', 11 \<mapsto> ''pa'', 13 \<mapsto> ''u''],
              subscriptions = []\<rparr>,
     cache = Map.empty,
     context_discrete_state_tickets = [], context_abstract_state_tickets = [],
     context_numeric_parameter_tickets = [], context_abstract_parameter_tickets = [],
     all_input_ports_ticket = 13,
     input_port_tickets = [], input_port_type_checkers = [],
     input_port_values = Map.empty, output_port_tickets = []\<rparr>"

definition diagram_context :: ContextBase where
  "diagram_context =
     ContextBase (blank_context_data\<lparr>context_system_name := ''diagram'', context_system_id := 1,
                    is_context_base_initialized := True\<rparr>) None"

definition motor_context :: ContextBase where
  "motor_context =
     ContextBase (blank_context_data\<lparr>context_system_name := ''motor'', context_system_id := 2,
                    is_context_base_initialized := True,
                    input_port_values := [0 \<mapsto> AbstractValue 42]\<rparr>) (Some diagram_context)"

definition sensor_context :: ContextBase where
  "sensor_context =
     ContextBase (blank_context_data\<lparr>context_system_name := ''sensor'', context_system_id := 3,
                    is_context_base_initialized := True\<rparr>) (Some diagram_context)"

definition quiet_process :: process_state where
  "quiet_process = \<lparr>g_warned_hash = {}, logged_warnings = []\<rparr>"

text \<open>A process with two Motor objects and nothing warned about yet.\<close>

definition two_motors :: world where
  "two_motors = \<lparr>systems = [motor, motor\<lparr>system_id := 4\<rparr>], process = quiet_process\<rparr>"

section \<open>Properties of the cache-entry declarations\<close>

lemma DeclareCacheEntryWithKnownTicket_empty:
  "DeclareCacheEntryWithKnownTicket t d p {||} s =
     (Inl (logic_error empty_prerequisites_message), s)"
  by (simp add: DeclareCacheEntryWithKnownTicket_def new_CacheEntry_def)

lemma DeclareCacheEntryWithKnownTicket_nonempty:
  "ps \<noteq> {||} \<Longrightarrow>
   DeclareCacheEntryWithKnownTicket t d p ps s =
     (Inr \<lparr>owning_system = system_id s, cache_index = length (cache_entries s),
           entry_ticket = t, entry_description = d, value_producer = p,
           prerequisites = ps, is_disabled_by_default = False\<rparr>,
      s\<lparr>cache_entries := cache_entries s @
          [\<lparr>owning_system = system_id s, cache_index = length (cache_entries s),
            entry_ticket = t, entry_description = d, value_producer = p,
            prerequisites = ps, is_disabled_by_default = False\<rparr>]\<rparr>)"
  by (simp add: DeclareCacheEntryWithKnownTicket_def new_CacheEntry_def num_cache_entries_def
      Let_def)

text \<open>
  Claim C5. Declaring a cache entry with an empty prerequisite set throws the constructor's
  logic error, through \<^verbatim>\<open>DeclareCacheEntry\<close> and through the known-ticket variant alike, for
  every description, producer and System, and the System's list of cache entries is the one
  from before the call.
\<close>

theorem DeclareCacheEntry_empty_prerequisites:
  "fst (DeclareCacheEntry d p {||} s) = Inl (logic_error empty_prerequisites_message)
   \<and> cache_entries (snd (DeclareCacheEntry d p {||} s)) = cache_entries s
   \<and> fst (DeclareCacheEntryWithKnownTicket t d p {||} s)
       = Inl (logic_error empty_prerequisites_message)
   \<and> cache_entries (snd (DeclareCacheEntryWithKnownTicket t d p {||} s)) = cache_entries s"
  by (simp add: DeclareCacheEntry_def assign_next_dependency_ticket_def
      DeclareCacheEntryWithKnownTicket_empty)

text \<open>
  Claim C8. When the prerequisite set is not empty the declaration succeeds. The entry it
  returns is the descriptor of the call: it carries the description, the value producer and
  the prerequisite set given, the ticket given (for \<^verbatim>\<open>DeclareCacheEntry\<close>, the next
  available ticket), and as index the number of entries declared before the call. The list
  of entries after the call is the old list with that entry appended; the returned entry is
  the element stored at that index, the back of the list; and nothing else of the System
  changes, apart from the ticket counter that \<^verbatim>\<open>DeclareCacheEntry\<close> advances. Neither
  function takes or returns a Context.
\<close>

theorem DeclareCacheEntry_appends:
  "ps \<noteq> {||} \<Longrightarrow>
   (\<exists>e. DeclareCacheEntryWithKnownTicket t d p ps s
           = (Inr e, s\<lparr>cache_entries := cache_entries s @ [e]\<rparr>)
         \<and> cache_index e = num_cache_entries s
         \<and> entry_ticket e = t
         \<and> entry_description e = d
         \<and> value_producer e = p
         \<and> prerequisites e = ps
         \<and> owning_system e = system_id s
         \<and> \<not> is_disabled_by_default e
         \<and> (cache_entries s @ [e]) ! cache_index e = e
         \<and> last (cache_entries s @ [e]) = e)
   \<and> (\<exists>e. DeclareCacheEntry d p ps s
           = (Inr e, s\<lparr>cache_entries := cache_entries s @ [e],
                        next_available_ticket := Suc (next_available_ticket s)\<rparr>)
         \<and> cache_index e = num_cache_entries s
         \<and> entry_ticket e = next_available_ticket s
         \<and> entry_description e = d
         \<and> value_producer e = p
         \<and> prerequisites e = ps
         \<and> owning_system e = system_id s
         \<and> \<not> is_disabled_by_default e
         \<and> (cache_entries s @ [e]) ! cache_index e = e
         \<and> last (cache_entries s @ [e]) = e)"
  by (simp add: DeclareCacheEntry_def assign_next_dependency_ticket_def
      DeclareCacheEntryWithKnownTicket_nonempty num_cache_entries_def)

text \<open>A third cache entry declared on the Motor, which has two.\<close>

theorem DeclareCacheEntry_appends_witness:
  "{|1, 3|} \<noteq> ({||} :: nat fset)
   \<and> (\<exists>e. DeclareCacheEntryWithKnownTicket 40 ''pose'' example_producer {|1, 3|} motor
           = (Inr e, motor\<lparr>cache_entries := cache_entries motor @ [e]\<rparr>)
         \<and> cache_index e = num_cache_entries motor
         \<and> entry_ticket e = 40
         \<and> entry_description e = ''pose''
         \<and> value_producer e = example_producer
         \<and> prerequisites e = {|1, 3|}
         \<and> owning_system e = system_id motor
         \<and> \<not> is_disabled_by_default e
         \<and> (cache_entries motor @ [e]) ! cache_index e = e
         \<and> last (cache_entries motor @ [e]) = e)
   \<and> (\<exists>e. DeclareCacheEntry ''pose'' example_producer {|1, 3|} motor
           = (Inr e, motor\<lparr>cache_entries := cache_entries motor @ [e],
                        next_available_ticket := Suc (next_available_ticket motor)\<rparr>)
         \<and> cache_index e = num_cache_entries motor
         \<and> entry_ticket e = next_available_ticket motor
         \<and> entry_description e = ''pose''
         \<and> value_producer e = example_producer
         \<and> prerequisites e = {|1, 3|}
         \<and> owning_system e = system_id motor
         \<and> \<not> is_disabled_by_default e
         \<and> (cache_entries motor @ [e]) ! cache_index e = e
         \<and> last (cache_entries motor @ [e]) = e)"
  using DeclareCacheEntry_appends [of "{|1, 3|}" 40 "''pose''" example_producer motor] by simp

text \<open>
  Claim C9. \<^verbatim>\<open>DeclareCacheEntry\<close> is the known-ticket variant applied to the next freshly
  allocated ticket: same result (descriptor or error) and same System afterwards, for every
  description, producer, prerequisite set and System.
\<close>

theorem DeclareCacheEntry_is_known_ticket_variant:
  "DeclareCacheEntry d p ps s = DeclareCacheEntry_with_fresh_ticket d p ps s"
  by (simp add: DeclareCacheEntry_def DeclareCacheEntry_with_fresh_ticket_def
      assign_next_dependency_ticket_def)


section \<open>The value of an input port\<close>

lemma warn_port_ok:
  "deprecation port \<noteq> None \<Longrightarrow> fst (warn_port hash ty is_input port g) = Inr ()"
  by (simp add: warn_port_def Let_def)

lemma WarnPortDeprecation_input_ok:
  assumes "i < length (input_ports s)" "deprecation (input_ports s ! i) \<noteq> None"
  shows "\<exists>s1 g1. WarnPortDeprecation hash True (int i) s g = (Inr (), s1, g1)
            \<and> parent_service s1 = parent_service s"
proof -
  obtain r p g1 where w: "warn_port hash (GetSystemType s) True (input_ports s ! i) g = (r, p, g1)"
    by (cases "warn_port hash (GetSystemType s) True (input_ports s ! i) g") auto
  from warn_port_ok [OF assms(2), of hash "GetSystemType s" True g] w have "r = Inr ()" by simp
  with w assms(1) show ?thesis
    by (simp add: WarnPortDeprecation_def vector_at_def)
qed

text \<open>
  Claim C1. For an index in range and a Context that holds a fixed value for the port,
  \<^verbatim>\<open>EvalAbstractInputImpl\<close> returns that value, whether or not the port is deprecated and
  whatever the parent service of the System is: with no parent, or with a parent whose
  \<^verbatim>\<open>EvalConnectedSubsystemInputPort\<close> would return anything else or throw.
\<close>

theorem EvalAbstractInputImpl_fixed_value:
  "port_index < num_input_ports s \<Longrightarrow>
   MaybeGetFixedInputPortValue context port_index = Some v \<Longrightarrow>
   fst (EvalAbstractInputImpl hash func context port_index (s\<lparr>parent_service := ps\<rparr>) g)
     = Inr (Some v)"
proof -
  assume range: "port_index < num_input_ports s"
    and fixed: "MaybeGetFixedInputPortValue context port_index = Some v"
  let ?s = "s\<lparr>parent_service := ps\<rparr>"
  have n: "port_index < length (input_ports ?s)"
    using range by (simp add: num_input_ports_def)
  show ?thesis
  proof (cases "deprecation (input_ports ?s ! port_index) = None")
    case True
    then show ?thesis using n fixed
      by (simp add: EvalAbstractInputImpl_def num_input_ports_def)
  next
    case False
    from WarnPortDeprecation_input_ok [OF n False, of hash g]
    obtain s1 g1 where "WarnPortDeprecation hash True (int port_index) ?s g = (Inr (), s1, g1)"
      by blast
    then show ?thesis using n fixed False
      by (simp add: EvalAbstractInputImpl_def num_input_ports_def)
  qed
qed

text \<open>
  The deprecated port 0 of the Motor, fixed to 42 in the Motor's Context; the Motor's parent
  would throw if it were asked.
\<close>

theorem EvalAbstractInputImpl_fixed_value_witness:
  "0 < num_input_ports motor
   \<and> MaybeGetFixedInputPortValue motor_context 0 = Some (AbstractValue 42)
   \<and> fst (EvalAbstractInputImpl example_hash ''EvalAbstractInput'' motor_context 0
            (motor\<lparr>parent_service := Some example_parent\<rparr>) quiet_process)
       = Inr (Some (AbstractValue 42))"
proof -
  have 1: "0 < num_input_ports motor" by (simp add: num_input_ports_def motor_def)
  have 2: "MaybeGetFixedInputPortValue motor_context 0 = Some (AbstractValue 42)"
    by (simp add: MaybeGetFixedInputPortValue_def motor_context_def)
  from EvalAbstractInputImpl_fixed_value [OF 1 2] 1 2 show ?thesis by simp
qed

text \<open>
  Claim C2. For an index in range and a Context that holds no fixed value for the port, when
  the System has no parent service or the Context is a root Context, \<^verbatim>\<open>EvalAbstractInputImpl\<close>
  returns null and throws nothing.
\<close>

theorem EvalAbstractInputImpl_unconnected:
  "port_index < num_input_ports s \<Longrightarrow>
   MaybeGetFixedInputPortValue context port_index = None \<Longrightarrow>
   parent_service s = None \<or> is_root_context context \<Longrightarrow>
   fst (EvalAbstractInputImpl hash func context port_index s g) = Inr None"
proof -
  assume range: "port_index < num_input_ports s"
    and free: "MaybeGetFixedInputPortValue context port_index = None"
    and alone: "parent_service s = None \<or> is_root_context context"
  have n: "port_index < length (input_ports s)"
    using range by (simp add: num_input_ports_def)
  show ?thesis
  proof (cases "deprecation (input_ports s ! port_index) = None")
    case True
    then show ?thesis using n free alone
      by (auto simp add: EvalAbstractInputImpl_def num_input_ports_def is_root_context_def
          split: option.splits)
  next
    case False
    from WarnPortDeprecation_input_ok [OF n False, of hash g]
    obtain s1 g1 where "WarnPortDeprecation hash True (int port_index) s g = (Inr (), s1, g1)"
      "parent_service s1 = parent_service s"
      by blast
    then show ?thesis using n free alone False
      by (auto simp add: EvalAbstractInputImpl_def num_input_ports_def is_root_context_def
          split: option.splits)
  qed
qed

text \<open>
  Port 1 of the Motor is not fixed in the Sensor's Context nor in the root Context: a Motor
  without a parent evaluated in the first, and the Motor inside the Diagram evaluated in the
  second.
\<close>

theorem EvalAbstractInputImpl_unconnected_witness:
  "1 < num_input_ports motor
   \<and> MaybeGetFixedInputPortValue sensor_context 1 = None
   \<and> parent_service (motor\<lparr>parent_service := None\<rparr>) = None
   \<and> fst (EvalAbstractInputImpl example_hash ''EvalAbstractInput'' sensor_context 1
            (motor\<lparr>parent_service := None\<rparr>) quiet_process) = Inr None
   \<and> MaybeGetFixedInputPortValue diagram_context 1 = None
   \<and> parent_service motor \<noteq> None \<and> is_root_context diagram_context
   \<and> fst (EvalAbstractInputImpl example_hash ''EvalAbstractInput'' diagram_context 1
            motor quiet_process) = Inr None"
proof -
  have 1: "1 < num_input_ports motor" "1 < num_input_ports (motor\<lparr>parent_service := None\<rparr>)"
    by (simp_all add: num_input_ports_def motor_def)
  have 2: "MaybeGetFixedInputPortValue sensor_context 1 = None"
    by (simp add: MaybeGetFixedInputPortValue_def sensor_context_def blank_context_data_def)
  have 3: "MaybeGetFixedInputPortValue diagram_context 1 = None"
    by (simp add: MaybeGetFixedInputPortValue_def diagram_context_def blank_context_data_def)
  have 4: "is_root_context diagram_context"
    by (simp add: is_root_context_def diagram_context_def)
  have 5: "parent_service motor \<noteq> None" by (simp add: motor_def)
  have 6: "parent_service (motor\<lparr>parent_service := None\<rparr>) = None" by simp
  from EvalAbstractInputImpl_unconnected [OF 1(2) 2 disjI1 [OF 6]]
    EvalAbstractInputImpl_unconnected [OF 1(1) 3 disjI2 [OF 4]] 1 2 3 4 5
  show ?thesis by simp
qed

section \<open>Index checks of the input-port evaluation\<close>

lemma negative_port_index_message:
  "fmt_format ''{}: negative port index {} is illegal. (System {})'' [a, b, c]
     = a @ '': negative port index '' @ b @ '' is illegal. (System '' @ c @ '')''"
  by simp

lemma input_port_out_of_range_message:
  "fmt_format (''{}: there is no input port with index {} because there '' @
               ''are only {} input ports in system {}.'') [a, b, c, d]
     = a @ '': there is no input port with index '' @ b @ '' because there are only '' @ c @
       '' input ports in system '' @ d @ ''.''"
  by simp

lemma sublist_2nd: "sublist x (a @ x @ b)"
  by (rule sublist_appendI)

lemma sublist_4th: "sublist x (a @ b @ c @ x @ d)"
  using sublist_appendI [of x "a @ b @ c" d] by simp

lemma sublist_6th: "sublist x (a @ b @ c @ d @ e @ x @ f)"
  using sublist_appendI [of x "a @ b @ c @ d @ e" f] by simp

lemma ThrowInputPortIndexOutOfRange_message:
  "ThrowInputPortIndexOutOfRange s func port =
     Inl (out_of_range
       (FmtFunc func @ '': there is no input port with index '' @ format_int (int port) @
        '' because there are only '' @ format_int (int (num_input_ports s)) @
        '' input ports in system '' @ GetSystemPathname s @ ''.''))"
  unfolding ThrowInputPortIndexOutOfRange_def input_port_out_of_range_message by (rule refl)

lemma ThrowNegativePortIndex_message:
  "i < 0 \<Longrightarrow>
   ThrowNegativePortIndex s func i =
     Inl (out_of_range
       (FmtFunc func @ '': negative port index '' @ format_int i @
        '' is illegal. (System '' @ GetSystemPathname s @ '')''))"
  unfolding ThrowNegativePortIndex_def negative_port_index_message by simp

lemma EvalAbstractInputImpl_out_of_range:
  "num_input_ports s \<le> port_index \<Longrightarrow>
   EvalAbstractInputImpl hash func context port_index s g =
     (case ThrowInputPortIndexOutOfRange s func port_index of
        Inl e \<Rightarrow> (Inl e, s, g) | Inr u \<Rightarrow> (Inr None, s, g))"
  by (simp add: EvalAbstractInputImpl_def ThrowInputPortIndexOutOfRange_def)

text \<open>
  Claim C3, as amended. An index at or beyond the declared number of input ports makes
  \<^verbatim>\<open>EvalAbstractInputImpl\<close> throw \<^verbatim>\<open>std::out_of_range\<close> before anything is written, with a
  message that names the index, the declared count and the pathname of the System. A negative
  index cannot reach \<^verbatim>\<open>EvalAbstractInputImpl\<close> (its index type has no negative values); it is
  reported by \<^verbatim>\<open>ThrowNegativePortIndex\<close>, which throws \<^verbatim>\<open>std::out_of_range\<close> with a message
  that names the index and the pathname.
\<close>

theorem port_index_out_of_range:
  "(num_input_ports s \<le> port_index \<longrightarrow>
      (\<exists>m. EvalAbstractInputImpl hash func context port_index s g = (Inl (out_of_range m), s, g)
          \<and> m = FmtFunc func @ '': there is no input port with index '' @
                format_int (int port_index) @ '' because there are only '' @
                format_int (int (num_input_ports s)) @ '' input ports in system '' @
                GetSystemPathname s @ ''.''
          \<and> sublist (format_int (int port_index)) m
          \<and> sublist (format_int (int (num_input_ports s))) m
          \<and> sublist (GetSystemPathname s) m))
   \<and> (i < 0 \<longrightarrow>
      (\<exists>m. ThrowNegativePortIndex s func i = Inl (out_of_range m)
          \<and> m = FmtFunc func @ '': negative port index '' @ format_int i @
                '' is illegal. (System '' @ GetSystemPathname s @ '')''
          \<and> sublist (format_int i) m
          \<and> sublist (GetSystemPathname s) m))"
proof (intro conjI impI)
  assume "num_input_ports s \<le> port_index"
  then have "EvalAbstractInputImpl hash func context port_index s g =
     (Inl (out_of_range
       (FmtFunc func @ '': there is no input port with index '' @ format_int (int port_index) @
        '' because there are only '' @ format_int (int (num_input_ports s)) @
        '' input ports in system '' @ GetSystemPathname s @ ''.'')), s, g)"
    by (simp only: EvalAbstractInputImpl_out_of_range ThrowInputPortIndexOutOfRange_message
        sum.case)
  then show "\<exists>m. EvalAbstractInputImpl hash func context port_index s g = (Inl (out_of_range m), s, g)
          \<and> m = FmtFunc func @ '': there is no input port with index '' @
                format_int (int port_index) @ '' because there are only '' @
                format_int (int (num_input_ports s)) @ '' input ports in system '' @
                GetSystemPathname s @ ''.''
          \<and> sublist (format_int (int port_index)) m
          \<and> sublist (format_int (int (num_input_ports s))) m
          \<and> sublist (GetSystemPathname s) m"
    by (intro exI conjI) (assumption, rule refl, rule sublist_2nd [of _ "_ @ _", simplified], rule sublist_4th [of _ "_ @ _", simplified append_assoc], rule sublist_6th [of _ "_ @ _", simplified append_assoc])
next
  assume "i < 0"
  then have "ThrowNegativePortIndex s func i =
     Inl (out_of_range
       (FmtFunc func @ '': negative port index '' @ format_int i @
        '' is illegal. (System '' @ GetSystemPathname s @ '')''))"
    by (rule ThrowNegativePortIndex_message)
  then show "\<exists>m. ThrowNegativePortIndex s func i = Inl (out_of_range m)
          \<and> m = FmtFunc func @ '': negative port index '' @ format_int i @
                '' is illegal. (System '' @ GetSystemPathname s @ '')''
          \<and> sublist (format_int i) m
          \<and> sublist (GetSystemPathname s) m"
    by (intro exI conjI) (assumption, rule refl, rule sublist_2nd [of _ "_ @ _", simplified], rule sublist_4th [of _ "_ @ _", simplified append_assoc])
qed

lemma motor_pathname: "GetSystemPathname motor = ''::diagram::motor''"
  by (simp add: GetSystemPathname_def motor_def example_parent_def path_separator_def)

lemma format_int_values: "format_int (- 1) = ''-1''" "format_int 2 = ''2''" "format_int 5 = ''5''"
  by (simp_all add: format_int_def to_decimal.simps)

text \<open>Both cases on the Motor, which has two input ports: index 5 and index -1.\<close>

theorem port_index_out_of_range_witness:
  "num_input_ports motor \<le> 5 \<and> (- 1 :: int) < 0
   \<and> EvalAbstractInputImpl example_hash ''EvalAbstractInput'' motor_context 5 motor quiet_process
       = (Inl (out_of_range
           (''System::EvalAbstractInput(): there is no input port with index 5 because '' @
            ''there are only 2 input ports in system ::diagram::motor.'')), motor, quiet_process)
   \<and> ThrowNegativePortIndex motor ''EvalAbstractInput'' (- 1)
       = Inl (out_of_range
           ''System::EvalAbstractInput(): negative port index -1 is illegal. (System ::diagram::motor)'')"
proof -
  have n: "num_input_ports motor = 2" by (simp add: num_input_ports_def motor_def)
  from port_index_out_of_range [of motor 5 example_hash "''EvalAbstractInput''" motor_context
      quiet_process "- 1"]
  show ?thesis
    by (simp add: n motor_pathname format_int_values FmtFunc_def)
qed

text \<open>
  Claim C3 as stated fails for a negative index: on the Motor, with two input ports, the
  message for index -1 does not name the declared count.
\<close>

theorem negative_port_index_counterexample:
  "ThrowNegativePortIndex motor ''EvalAbstractInput'' (- 1)
     = Inl (out_of_range
         ''System::EvalAbstractInput(): negative port index -1 is illegal. (System ::diagram::motor)'')
   \<and> format_int (int (num_input_ports motor)) = ''2''
   \<and> \<not> sublist (format_int (int (num_input_ports motor)))
         ''System::EvalAbstractInput(): negative port index -1 is illegal. (System ::diagram::motor)''"
proof -
  have n: "int (num_input_ports motor) = 2" by (simp add: num_input_ports_def motor_def)
  have "\<not> sublist ''2''
     ''System::EvalAbstractInput(): negative port index -1 is illegal. (System ::diagram::motor)''"
    by code_simp
  then show ?thesis
    by (simp add: n format_int_values ThrowNegativePortIndex_def motor_pathname FmtFunc_def)
qed


section \<open>The mismatch diagnosis\<close>

lemma sublist_5th: "sublist x (a @ b @ c @ d @ x @ e)"
  using sublist_appendI [of x "a @ b @ c @ d" e] by simp

lemma sublist_9th: "sublist x (a @ b @ c @ d @ e @ f @ g @ h @ x @ i)"
  using sublist_appendI [of x "a @ b @ c @ d @ e @ f @ g @ h" i] by simp

lemma root_context_passed_message:
  "fmt_format
     (''A function call on a {} system named '{}' was passed the root '' @
      ''Diagram's Context instead of the appropriate subsystem Context. '' @
      ''Use GetMyContextFromRoot() or similar to acquire the appropriate '' @
      ''subsystem Context.\<newline>{}'') [a, b, c]
   = ''A function call on a '' @ a @ '' system named '' @ [CHR 0x27] @ b @ [CHR 0x27] @
     ('' was passed the root Diagram's Context instead of the appropriate subsystem Context. '' @
      ''Use GetMyContextFromRoot() or similar to acquire the appropriate subsystem Context.\<newline>'') @ c"
  by simp

lemma subcontext_passed_message:
  "fmt_format
     (''A function call on the root Diagram was passed a subcontext '' @
      ''associated with its subsystem named '{}' instead of the root '' @
      ''context. When calling a function on a the root Digram, you must '' @
      ''pass a reference to the root Context, not a subcontext.\<newline>{}'') [a, b]
   = (''A function call on the root Diagram was passed a subcontext associated with '' @
      ''its subsystem named '') @ [CHR 0x27] @ a @ [CHR 0x27] @
     ('' instead of the root context. When calling a function on a the root Digram, you must '' @
      ''pass a reference to the root Context, not a subcontext.\<newline>'') @ b"
  by simp

lemma other_context_passed_message:
  "fmt_format
     (''A function call on a {} system named '{}' was passed the Context of '' @
      ''a system named '{}' instead of the appropriate subsystem Context.\<newline>{}'') [a, b, c, d]
   = ''A function call on a '' @ a @ '' system named '' @ [CHR 0x27] @ b @ [CHR 0x27] @
     '' was passed the Context of a system named '' @ [CHR 0x27] @ c @ [CHR 0x27] @
     '' instead of the appropriate subsystem Context.\<newline>'' @ d"
  by simp

lemma ThrowValidateContextMismatch_eq:
  "ThrowValidateContextMismatch s context =
     Inl (logic_error
       (if is_context_of_root_system s context then root_context_message s
        else if get_system_id (root_context context) = system_id s
             then subcontext_message context
             else other_context_message s context))"
  unfolding ThrowValidateContextMismatch_def root_context_passed_message
    subcontext_passed_message other_context_passed_message is_context_of_root_system_def
    root_context_message_def subcontext_message_def other_context_message_def
  by (simp split: option.splits del: append.simps append_Cons append_Nil append_assoc)

lemma accessor_in_message:
  "sublist ''GetMyContextFromRoot()'' (root_context_message s)"
proof -
  have "sublist ''GetMyContextFromRoot()''
     ('' was passed the root Diagram's Context instead of the appropriate subsystem Context. '' @
      ''Use GetMyContextFromRoot() or similar to acquire the appropriate subsystem Context.\<newline>'')"
    by code_simp
  then obtain p q where "('' was passed the root Diagram's Context instead of the appropriate subsystem Context. '' @
      ''Use GetMyContextFromRoot() or similar to acquire the appropriate subsystem Context.\<newline>'') = p @ ''GetMyContextFromRoot()'' @ q"
    unfolding sublist_def by blast
  then have "root_context_message s = (''A function call on a '' @ GetSystemType s @ '' system named '' @ [CHR 0x27] @ GetSystemPathname s @ [CHR 0x27] @ p) @ ''GetMyContextFromRoot()'' @ (q @ info_link)"
    unfolding root_context_message_def by (simp only: append_assoc)
  then show ?thesis unfolding sublist_def by blast
qed

text \<open>
  Claim C6, as amended. \<^verbatim>\<open>ThrowValidateContextMismatch\<close> always throws a
  \<^verbatim>\<open>std::logic_error\<close>, chosen in this order: (a) when the System has a parent and the id of
  the Context passed is the id of the root System, the text that names the System's type and
  pathname and suggests \<^verbatim>\<open>GetMyContextFromRoot()\<close>; (b) else, when the root of the Context
  passed carries the id of this System, the text that names the pathname of the Context passed;
  (c) else the text that names both pathnames.
\<close>

theorem ThrowValidateContextMismatch_diagnosis:
  "ThrowValidateContextMismatch s context =
     Inl (logic_error
       (if is_context_of_root_system s context then root_context_message s
        else if get_system_id (root_context context) = system_id s
             then subcontext_message context
             else other_context_message s context))
   \<and> sublist (GetSystemPathname s) (root_context_message s)
   \<and> sublist ''GetMyContextFromRoot()'' (root_context_message s)
   \<and> sublist (Context_GetSystemPathname context) (subcontext_message context)
   \<and> sublist (GetSystemPathname s) (other_context_message s context)
   \<and> sublist (Context_GetSystemPathname context) (other_context_message s context)"
proof (intro conjI)
  show "sublist (GetSystemPathname s) (root_context_message s)"
    unfolding root_context_message_def by (rule sublist_5th)
  show "sublist (Context_GetSystemPathname context) (subcontext_message context)"
    unfolding subcontext_message_def by (rule sublist_appendI [of _ "_ @ _", simplified append_assoc])
  show "sublist (GetSystemPathname s) (other_context_message s context)"
    unfolding other_context_message_def by (rule sublist_5th)
  show "sublist (Context_GetSystemPathname context) (other_context_message s context)"
    unfolding other_context_message_def by (rule sublist_9th)
qed (rule ThrowValidateContextMismatch_eq, rule accessor_in_message)

text \<open>
  The three cases: the Motor given the root Context, the root Diagram given the Motor's
  Context, and the Motor given the Sensor's Context.
\<close>

theorem ThrowValidateContextMismatch_diagnosis_witness:
  "ThrowValidateContextMismatch motor diagram_context
     = Inl (logic_error (root_context_message motor))
   \<and> ThrowValidateContextMismatch root_diagram motor_context
     = Inl (logic_error (subcontext_message motor_context))
   \<and> ThrowValidateContextMismatch motor sensor_context
     = Inl (logic_error (other_context_message motor sensor_context))"
proof -
  have a: "is_context_of_root_system motor diagram_context"
    by (simp add: is_context_of_root_system_def motor_def example_parent_def get_system_id_def
        diagram_context_def blank_context_data_def)
  have b: "\<not> is_context_of_root_system root_diagram motor_context"
    "get_system_id (root_context motor_context) = system_id root_diagram"
    by (simp_all add: is_context_of_root_system_def root_diagram_def get_system_id_def
        motor_context_def diagram_context_def blank_context_data_def)
  have c: "\<not> is_context_of_root_system motor sensor_context"
    "get_system_id (root_context sensor_context) \<noteq> system_id motor"
    by (simp_all add: is_context_of_root_system_def motor_def example_parent_def
        get_system_id_def sensor_context_def diagram_context_def blank_context_data_def)
  from ThrowValidateContextMismatch_diagnosis [of motor diagram_context]
    ThrowValidateContextMismatch_diagnosis [of root_diagram motor_context]
    ThrowValidateContextMismatch_diagnosis [of motor sensor_context] a b c
  show ?thesis by (simp only: if_True if_False simp_thms)
qed

lemma sensor_pathname: "Context_GetSystemPathname sensor_context = ''::diagram::sensor''"
  by (simp add: sensor_context_def diagram_context_def blank_context_data_def path_separator_def)

lemma motor_vs_sensor:
  "ThrowValidateContextMismatch motor sensor_context = Inl (logic_error (other_context_message motor sensor_context))"
proof -
  have "\<not> is_context_of_root_system motor sensor_context"
    by (simp add: is_context_of_root_system_def motor_def example_parent_def get_system_id_def
        sensor_context_def blank_context_data_def)
  moreover have "get_system_id (root_context sensor_context) \<noteq> system_id motor"
    by (simp add: motor_def get_system_id_def sensor_context_def diagram_context_def
        blank_context_data_def)
  ultimately show ?thesis by (simp only: ThrowValidateContextMismatch_eq if_False)
qed

text \<open>
  Claim C6 as stated fails in its case (a): the Motor is given the Context of its sibling, the
  Sensor. The root of that Context carries the id of the root System of the Motor, but the
  Context itself does not, and the call throws the generic text (c), which does not suggest
  the accessor.
\<close>

theorem sibling_context_counterexample:
  "parent_service motor = Some example_parent
   \<and> get_system_id (root_context sensor_context) = GetRootSystemBase_system_id example_parent
   \<and> ThrowValidateContextMismatch motor sensor_context =
       Inl (logic_error
         (''A function call on a Motor system named '::diagram::motor' was passed the '' @
          ''Context of a system named '::diagram::sensor' instead of the appropriate '' @
          ''subsystem Context.\<newline>For more information about Context-System mismatches, see '' @
          ''https://drake.mit.edu/troubleshooting.html#framework-context-system-mismatch''))
   \<and> \<not> sublist ''GetMyContextFromRoot()''
         (''A function call on a Motor system named '::diagram::motor' was passed the '' @
          ''Context of a system named '::diagram::sensor' instead of the appropriate '' @
          ''subsystem Context.\<newline>For more information about Context-System mismatches, see '' @
          ''https://drake.mit.edu/troubleshooting.html#framework-context-system-mismatch'')"
proof -
  have 1: "parent_service motor = Some example_parent" by (simp add: motor_def)
  have 2: "get_system_id (root_context sensor_context) = GetRootSystemBase_system_id example_parent"
    by (simp add: get_system_id_def sensor_context_def diagram_context_def
        blank_context_data_def example_parent_def)
  have 3: "other_context_message motor sensor_context =
         (''A function call on a Motor system named '::diagram::motor' was passed the '' @
          ''Context of a system named '::diagram::sensor' instead of the appropriate '' @
          ''subsystem Context.\<newline>For more information about Context-System mismatches, see '' @
          ''https://drake.mit.edu/troubleshooting.html#framework-context-system-mismatch'')"
    unfolding other_context_message_def motor_pathname sensor_pathname info_link_def
    by (simp add: motor_def)
  have 4: "\<not> sublist ''GetMyContextFromRoot()''
         (''A function call on a Motor system named '::diagram::motor' was passed the '' @
          ''Context of a system named '::diagram::sensor' instead of the appropriate '' @
          ''subsystem Context.\<newline>For more information about Context-System mismatches, see '' @
          ''https://drake.mit.edu/troubleshooting.html#framework-context-system-mismatch'')"
    by code_simp
  from 1 2 3 4 motor_vs_sensor show ?thesis by (simp only: simp_thms)
qed


section \<open>Deprecation warnings, once per combination\<close>


lemma warn_port_cases:
  "warn_port hash ty is_input port g = (r, port', g') \<Longrightarrow>
   g_warned_hash g \<subseteq> g_warned_hash g'
   \<and> (length (logged_warnings g') = length (logged_warnings g)
        \<or> (length (logged_warnings g') = Suc (length (logged_warnings g))
            \<and> hash ty is_input (port_name port) \<notin> g_warned_hash g
            \<and> hash ty is_input (port_name port) \<in> g_warned_hash g'))"
  by (auto simp add: warn_port_def Let_def split: if_splits)

lemma step_cases:
  "g_warned_hash (process w) \<subseteq> g_warned_hash (process (step hash c w))
   \<and> (warnings_of_call hash c w = 0
        \<or> (warnings_of_call hash c w = 1
            \<and> (\<exists>ty dir nm. combination w c = Some (ty, dir, nm)
                  \<and> hash ty dir nm \<notin> g_warned_hash (process w)
                  \<and> hash ty dir nm \<in> g_warned_hash (process (step hash c w)))))"
proof (cases c)
  case (WarnPortDeprecation_call k is_input i)
  show ?thesis
  proof (cases "k < length (systems w)")
    case False
    then show ?thesis using WarnPortDeprecation_call by (simp add: warnings_of_call_def)
  next
    case True
    note k = this
    let ?s = "systems w ! k"
    show ?thesis
    proof (cases is_input)
      case True
      show ?thesis
      proof (cases "vector_at (input_ports ?s) i")
        case (Inl e)
        then show ?thesis using WarnPortDeprecation_call k True
          by (simp add: warnings_of_call_def WarnPortDeprecation_def)
      next
        case (Inr port)
        obtain r port' g' where wp: "warn_port hash (GetSystemType ?s) True port (process w) = (r, port', g')"
          by (cases "warn_port hash (GetSystemType ?s) True port (process w)") auto
        from warn_port_cases [OF wp] show ?thesis
          using WarnPortDeprecation_call k True Inr wp
          by (auto simp add: warnings_of_call_def WarnPortDeprecation_def)
      qed
    next
      case False
      show ?thesis
      proof (cases "vector_at (output_ports ?s) i")
        case (Inl e)
        then show ?thesis using WarnPortDeprecation_call k False
          by (simp add: warnings_of_call_def WarnPortDeprecation_def)
      next
        case (Inr port)
        obtain r port' g' where wp: "warn_port hash (GetSystemType ?s) False port (process w) = (r, port', g')"
          by (cases "warn_port hash (GetSystemType ?s) False port (process w)") auto
        from warn_port_cases [OF wp] show ?thesis
          using WarnPortDeprecation_call k False Inr wp
          by (auto simp add: warnings_of_call_def WarnPortDeprecation_def)
      qed
    qed
  qed
qed

lemma warnings_about_known_key:
  "hash ty dir nm \<in> g_warned_hash (process w) \<Longrightarrow> warnings_about hash (ty, dir, nm) cs w = 0"
proof (induction cs arbitrary: w)
  case Nil
  then show ?case by simp
next
  case (Cons c cs)
  from step_cases [of w hash c] Cons.prems
  have grow: "hash ty dir nm \<in> g_warned_hash (process (step hash c w))"
    and quiet: "combination w c = Some (ty, dir, nm) \<Longrightarrow> warnings_of_call hash c w = 0"
    by auto
  from Cons.IH [of "step hash c w"] grow quiet show ?case by simp
qed

text \<open>
  Claim C7. From any state of the process and for any sequence of calls of
  \<^verbatim>\<open>WarnPortDeprecation\<close>, made one after the other on any of the System objects, the calls
  about one combination of System type, direction and port name write at most one warning
  to the log between them, whatever the hash function is.
\<close>

theorem WarnPortDeprecation_at_most_once:
  "warnings_about hash (ty, dir, nm) cs w \<le> 1"
proof (induction cs arbitrary: w)
  case Nil
  show ?case by simp
next
  case (Cons c cs)
  show ?case
  proof (cases "combination w c = Some (ty, dir, nm) \<and> warnings_of_call hash c w \<noteq> 0")
    case True
    with step_cases [of w hash c]
    have one: "warnings_of_call hash c w = 1"
      and key: "hash ty dir nm \<in> g_warned_hash (process (step hash c w))"
      by auto
    from warnings_about_known_key [of hash ty dir nm "step hash c w" cs] key one True
    show ?thesis by simp
  next
    case False
    with Cons.IH [of "step hash c w"] show ?thesis by auto
  qed
qed


lemma two_motors_first_call:
  "step example_hash (WarnPortDeprecation_call 0 True 0) two_motors
     = \<lparr>systems = [motor\<lparr>input_ports := [torque_port\<lparr>deprecation_already_warned := True\<rparr>, speed_port]\<rparr>,
                   motor\<lparr>system_id := 4\<rparr>],
        process = \<lparr>g_warned_hash = {example_hash ''Motor'' True ''torque''},
                   logged_warnings = [''InputPort[0] (torque) of System ::diagram::motor (Motor) is deprecated: use force instead'']\<rparr>\<rparr>"
  by (simp add: two_motors_def WarnPortDeprecation_def vector_at_def warn_port_def Let_def
      motor_def torque_port_def quiet_process_def)

text \<open>
  Two Motor objects and four calls on the deprecated input port, alternating between the
  two: all four calls are about the same combination, and the first one already writes a
  warning, so the other three write none.
\<close>

theorem WarnPortDeprecation_at_most_once_witness:
  "warnings_about example_hash (''Motor'', True, ''torque'')
     [WarnPortDeprecation_call 0 True 0, WarnPortDeprecation_call 1 True 0,
      WarnPortDeprecation_call 0 True 0, WarnPortDeprecation_call 1 True 0] two_motors \<le> 1
   \<and> warnings_of_call example_hash (WarnPortDeprecation_call 0 True 0) two_motors = 1
   \<and> combination two_motors (WarnPortDeprecation_call 0 True 0) = Some (''Motor'', True, ''torque'')
   \<and> combination two_motors (WarnPortDeprecation_call 1 True 0) = Some (''Motor'', True, ''torque'')"
proof -
  have 1: "warnings_of_call example_hash (WarnPortDeprecation_call 0 True 0) two_motors = 1"
    unfolding warnings_of_call_def two_motors_first_call by (simp add: two_motors_def quiet_process_def)
  have 2: "combination two_motors (WarnPortDeprecation_call 0 True 0) = Some (''Motor'', True, ''torque'')"
    "combination two_motors (WarnPortDeprecation_call 1 True 0) = Some (''Motor'', True, ''torque'')"
    by (simp_all add: two_motors_def vector_at_def motor_def torque_port_def)
  from WarnPortDeprecation_at_most_once [of example_hash "''Motor''" True "''torque''"
      "[WarnPortDeprecation_call 0 True 0, WarnPortDeprecation_call 1 True 0,
        WarnPortDeprecation_call 0 True 0, WarnPortDeprecation_call 1 True 0]" two_motors] 1 2
  show ?thesis by blast
qed


section \<open>Initialization of a Context\<close>

lemma establishesI:
  "(\<And>c. P c \<Longrightarrow> fst (m c) = Inr () \<and> Q (snd (m c))) \<Longrightarrow> establishes P m Q"
  by (simp add: establishes_def)

lemma establishesD:
  "establishes P m Q \<Longrightarrow> P c \<Longrightarrow> fst (m c) = Inr () \<and> Q (snd (m c))"
  by (simp add: establishes_def)

lemma for_each_Cons_ok:
  "fst (body x c) = Inr () \<Longrightarrow> for_each body (x # xs) c = for_each body xs (snd (body x c))"
  by (cases "body x c") (auto split: sum.splits)

lemma establishes_for_each:
  assumes "\<And>ys x zs. xs = ys @ x # zs \<Longrightarrow> establishes (I ys) (body x) (I (ys @ [x]))"
  shows "establishes (I []) (for_each body xs) (I xs)"
proof -
  have "\<And>ys. (\<And>ys' x zs. zs0 = ys' @ x # zs \<Longrightarrow> establishes (I (ys @ ys')) (body x) (I (ys @ ys' @ [x])))
          \<Longrightarrow> establishes (I ys) (for_each body zs0) (I (ys @ zs0))" for zs0
  proof (induction zs0)
    case Nil
    show ?case by (simp add: establishes_def)
  next
    case (Cons z zs)
    from Cons.prems [of "[]" z zs] have first: "establishes (I ys) (body z) (I (ys @ [z]))" by simp
    have rest: "establishes (I (ys @ [z])) (for_each body zs) (I ((ys @ [z]) @ zs))"
    proof (rule Cons.IH)
      fix ys' x zs'
      assume "zs = ys' @ x # zs'"
      then have "z # zs = (z # ys') @ x # zs'" by simp
      from Cons.prems [OF this]
      show "establishes (I ((ys @ [z]) @ ys')) (body x) (I ((ys @ [z]) @ ys' @ [x]))" by simp
    qed
    show ?case
    proof (rule establishesI)
      fix c assume "I ys c"
      with establishesD [OF first] have 1: "fst (body z c) = Inr ()" "I (ys @ [z]) (snd (body z c))"
        by auto
      from establishesD [OF rest 1(2)] for_each_Cons_ok [of body z c zs] 1(1)
      show "fst (for_each body (z # zs) c) = Inr () \<and> I (ys @ z # zs) (snd (for_each body (z # zs) c))"
        by simp
    qed
  qed
  from this [of xs "[]"] assms show ?thesis by simp
qed

lemma establishes_in_sequence_Nil: "establishes P (in_sequence []) P"
  by (simp add: establishes_def in_sequence_def)

lemma establishes_in_sequence_Cons:
  assumes "establishes P m Q" "establishes Q (in_sequence ms) R"
  shows "establishes P (in_sequence (m # ms)) R"
proof (rule establishesI)
  fix c assume "P c"
  with establishesD [OF assms(1)] have 1: "fst (m c) = Inr ()" "Q (snd (m c))" by auto
  from establishesD [OF assms(2) 1(2)] for_each_Cons_ok [of "\<lambda>statement. statement" m c ms] 1(1)
  show "fst (in_sequence (m # ms) c) = Inr () \<and> R (snd (in_sequence (m # ms) c))"
    by (simp add: in_sequence_def)
qed

lemma CreateNewDependencyTracker_shape:
  "t \<notin> K \<Longrightarrow> establishes (shape K D u) (CreateNewDependencyTracker t d) (shape (insert t K) D u)"
  by (auto simp add: establishes_def shape_def CreateNewDependencyTracker_def has_tracker_def)

lemma get_mutable_tracker_shape:
  "t \<in> K \<Longrightarrow> establishes (shape K D u) (get_mutable_tracker t) (shape K D u)"
  by (auto simp add: establishes_def shape_def get_mutable_tracker_def has_tracker_def)

lemma SubscribeToPrerequisite_shape:
  "establishes (shape K D u) (SubscribeToPrerequisite a b) (shape K D u)"
  by (simp add: establishes_def shape_def SubscribeToPrerequisite_def)

lemma Add_ticket_shape:
  "establishes (shape K D u) (AddDiscreteStateTicket t) (shape K D u)"
  "establishes (shape K D u) (AddAbstractStateTicket t) (shape K D u)"
  "establishes (shape K D u) (AddNumericParameterTicket t) (shape K D u)"
  "establishes (shape K D u) (AddAbstractParameterTicket t) (shape K D u)"
  by (simp_all add: establishes_def shape_def AddDiscreteStateTicket_def
      AddAbstractStateTicket_def AddNumericParameterTicket_def AddAbstractParameterTicket_def)

lemma set_system_shape:
  "establishes (shape K D u) (set_system_name n) (shape K D u)"
  "establishes (shape K D u) (set_system_id i) (shape K D u)"
  "establishes (shape K D u) mark_context_base_initialized (shape K D u)"
  by (simp_all add: establishes_def shape_def set_system_name_def set_system_id_def
      mark_context_base_initialized_def)

lemma on_cache_value_shape:
  "establishes (shape K D u) (on_cache_value i f) (shape K D u)"
  by (auto simp add: establishes_def shape_def on_cache_value_def dom_def)

lemma make_trackers_shape:
  assumes sub: "subscriber \<in> K"
    and dist: "distinct (map info_ticket (infos :: TrackerInfo list))"
    and new: "set (map info_ticket infos) \<inter> K = {}"
    and add: "\<And>t K'. establishes (shape K' D u) (add t) (shape K' D u)"
  shows "establishes (shape K D u) (make_trackers subscriber infos add)
           (shape (K \<union> set (map info_ticket infos)) D u)"
proof -
  let ?I = "\<lambda>ys :: TrackerInfo list. shape (K \<union> set (map info_ticket ys)) D u"
  have loop: "establishes (?I []) (for_each (\<lambda>info. in_sequence
                    [CreateNewDependencyTracker (info_ticket info) (info_description info),
                     add (info_ticket info),
                     SubscribeToPrerequisite subscriber (info_ticket info)]) infos) (?I infos)"
  proof (rule establishes_for_each [where I = ?I])
    fix ys x zs assume split: "infos = ys @ x # zs"
    with dist new have fresh: "info_ticket x \<notin> K \<union> set (map info_ticket ys)" by auto
    have post: "insert (info_ticket x) (K \<union> set (map info_ticket ys)) = K \<union> set (map info_ticket (ys @ [x]))"
      by auto
    show "establishes (?I ys) (in_sequence
                    [CreateNewDependencyTracker (info_ticket x) (info_description x),
                     add (info_ticket x),
                     SubscribeToPrerequisite subscriber (info_ticket x)]) (?I (ys @ [x]))"
      unfolding post [symmetric]
      by (intro establishes_in_sequence_Cons [OF CreateNewDependencyTracker_shape [OF fresh]]
          establishes_in_sequence_Cons [OF add]
          establishes_in_sequence_Cons [OF SubscribeToPrerequisite_shape]
          establishes_in_sequence_Nil)
  qed
  then have loop': "establishes (shape K D u) (for_each (\<lambda>info. in_sequence
                    [CreateNewDependencyTracker (info_ticket info) (info_description info),
                     add (info_ticket info),
                     SubscribeToPrerequisite subscriber (info_ticket info)]) infos) (?I infos)"
    by simp
  show ?thesis
    unfolding make_trackers_def
    by (rule establishes_in_sequence_Cons [OF get_mutable_tracker_shape [OF sub]
        establishes_in_sequence_Cons [OF loop' establishes_in_sequence_Nil]])
qed

lemma all_input_ports_lookup_shape:
  "u \<in> K \<Longrightarrow>
   establishes (shape K D u) (\<lambda>c. get_mutable_tracker (all_input_ports_ticket c) c) (shape K D u)"
  by (auto simp add: establishes_def shape_def get_mutable_tracker_def has_tracker_def)

lemma all_input_ports_subscribe_shape:
  "establishes (shape K D u) (\<lambda>c. SubscribeToPrerequisite (all_input_ports_ticket c) t c)
     (shape K D u)"
  by (simp add: establishes_def shape_def SubscribeToPrerequisite_def)

lemma register_input_port_shape:
  "establishes (shape K D u)
     (\<lambda>c. (Inr (), c\<lparr>input_port_tickets := input_port_tickets c @ [t],
                       input_port_type_checkers := input_port_type_checkers c @ [chk]\<rparr>))
     (shape K D u)"
  by (simp add: establishes_def shape_def)

lemma register_output_port_shape:
  "establishes (shape K D u)
     (\<lambda>c. (Inr (), c\<lparr>output_port_tickets := output_port_tickets c @ [t]\<rparr>))
     (shape K D u)"
  by (simp add: establishes_def shape_def)

lemma AddInputPort_shape:
  assumes "t \<notin> K" "u \<in> K"
  shows "establishes (shape K D u) (AddInputPort i t chk) (shape (insert t K) D u)"
proof -
  from assms(2) have u: "u \<in> insert t K" by simp
  have "establishes (shape K D u)
     (in_sequence
       [CreateNewDependencyTracker t (''u_'' @ format_int (int i)),
        (\<lambda>c. (Inr (), c\<lparr>input_port_tickets := input_port_tickets c @ [t],
                          input_port_type_checkers := input_port_type_checkers c @ [chk]\<rparr>)),
        (\<lambda>c. get_mutable_tracker (all_input_ports_ticket c) c),
        (\<lambda>c. SubscribeToPrerequisite (all_input_ports_ticket c) t c)])
     (shape (insert t K) D u)"
    by (intro establishes_in_sequence_Cons [OF CreateNewDependencyTracker_shape [OF assms(1)]]
        establishes_in_sequence_Cons [OF register_input_port_shape]
        establishes_in_sequence_Cons [OF all_input_ports_lookup_shape [OF u]]
        establishes_in_sequence_Cons [OF all_input_ports_subscribe_shape]
        establishes_in_sequence_Nil)
  then show ?thesis by (simp add: establishes_def AddInputPort_def)
qed

lemma input_ports_shape:
  assumes u: "u \<in> K"
    and dist: "distinct (map port_ticket (ports :: InputPortBase list))"
    and new: "set (map port_ticket ports) \<inter> K = {}"
  shows "establishes (shape K D u)
           (for_each (\<lambda>iport. AddInputPort (get_index iport) (port_ticket iport)
                        (checker (get_index iport))) ports)
           (shape (K \<union> set (map port_ticket ports)) D u)"
proof -
  let ?I = "\<lambda>ys :: InputPortBase list. shape (K \<union> set (map port_ticket ys)) D u"
  have "establishes (?I []) (for_each (\<lambda>iport. AddInputPort (get_index iport) (port_ticket iport)
                        (checker (get_index iport))) ports) (?I ports)"
  proof (rule establishes_for_each [where I = ?I])
    fix ys x zs assume split: "ports = ys @ x # zs"
    with dist new have fresh: "port_ticket x \<notin> K \<union> set (map port_ticket ys)" by auto
    from u have u': "u \<in> K \<union> set (map port_ticket ys)" by simp
    have post: "insert (port_ticket x) (K \<union> set (map port_ticket ys))
                = K \<union> set (map port_ticket (ys @ [x]))"
      by auto
    show "establishes (?I ys) (AddInputPort (get_index x) (port_ticket x) (checker (get_index x)))
            (?I (ys @ [x]))"
      unfolding post [symmetric] by (rule AddInputPort_shape [OF fresh u'])
  qed
  then show ?thesis by simp
qed

lemma AddOutputPort_shape:
  assumes "t \<notin> K" "child_subsystem p = None \<Longrightarrow> dependency p \<in> insert t K"
  shows "establishes (shape K D u) (AddOutputPort i t p) (shape (insert t K) D u)"
proof (cases "child_subsystem p = None")
  case True
  have "establishes (shape K D u)
     (in_sequence
       [CreateNewDependencyTracker t (''y_'' @ format_int (int i)),
        (\<lambda>c. (Inr (), c\<lparr>output_port_tickets := output_port_tickets c @ [t]\<rparr>)),
        get_mutable_tracker (dependency p),
        SubscribeToPrerequisite t (dependency p)])
     (shape (insert t K) D u)"
    by (intro establishes_in_sequence_Cons [OF CreateNewDependencyTracker_shape [OF assms(1)]]
        establishes_in_sequence_Cons [OF register_output_port_shape]
        establishes_in_sequence_Cons [OF get_mutable_tracker_shape [OF assms(2) [OF True]]]
        establishes_in_sequence_Cons [OF SubscribeToPrerequisite_shape]
        establishes_in_sequence_Nil)
  moreover from True have "AddOutputPort i t p = in_sequence
       [CreateNewDependencyTracker t (''y_'' @ format_int (int i)),
        (\<lambda>c. (Inr (), c\<lparr>output_port_tickets := output_port_tickets c @ [t]\<rparr>)),
        get_mutable_tracker (dependency p),
        SubscribeToPrerequisite t (dependency p)]"
    by (intro ext) (simp add: AddOutputPort_def)
  ultimately show ?thesis by (simp only:)
next
  case False
  have "establishes (shape K D u)
     (in_sequence
       [CreateNewDependencyTracker t (''y_'' @ format_int (int i)),
        (\<lambda>c. (Inr (), c\<lparr>output_port_tickets := output_port_tickets c @ [t]\<rparr>))])
     (shape (insert t K) D u)"
    by (intro establishes_in_sequence_Cons [OF CreateNewDependencyTracker_shape [OF assms(1)]]
        establishes_in_sequence_Cons [OF register_output_port_shape]
        establishes_in_sequence_Nil)
  moreover from False have "AddOutputPort i t p = in_sequence
       [CreateNewDependencyTracker t (''y_'' @ format_int (int i)),
        (\<lambda>c. (Inr (), c\<lparr>output_port_tickets := output_port_tickets c @ [t]\<rparr>))]"
    by (intro ext) (auto simp add: AddOutputPort_def)
  ultimately show ?thesis by (simp only:)
qed

lemma output_ports_shape:
  assumes dist: "distinct (map port_ticket (ports :: OutputPortBase list))"
    and new: "set (map port_ticket ports) \<inter> K = {}"
    and deps: "\<And>oport. oport \<in> set ports \<Longrightarrow> child_subsystem (prerequisite oport) = None \<Longrightarrow>
                 dependency (prerequisite oport) \<in> K"
  shows "establishes (shape K D u)
           (for_each (\<lambda>oport. AddOutputPort (get_index oport) (port_ticket oport)
                        (prerequisite oport)) ports)
           (shape (K \<union> set (map port_ticket ports)) D u)"
proof -
  let ?I = "\<lambda>ys :: OutputPortBase list. shape (K \<union> set (map port_ticket ys)) D u"
  have "establishes (?I []) (for_each (\<lambda>oport. AddOutputPort (get_index oport) (port_ticket oport)
                        (prerequisite oport)) ports) (?I ports)"
  proof (rule establishes_for_each [where I = ?I])
    fix ys x zs assume split: "ports = ys @ x # zs"
    with dist new have fresh: "port_ticket x \<notin> K \<union> set (map port_ticket ys)" by auto
    from split have "x \<in> set ports" by simp
    from deps [OF this]
    have dep: "child_subsystem (prerequisite x) = None \<Longrightarrow>
               dependency (prerequisite x) \<in> insert (port_ticket x) (K \<union> set (map port_ticket ys))"
      by simp
    have post: "insert (port_ticket x) (K \<union> set (map port_ticket ys))
                = K \<union> set (map port_ticket (ys @ [x]))"
      by auto
    show "establishes (?I ys) (AddOutputPort (get_index x) (port_ticket x) (prerequisite x))
            (?I (ys @ [x]))"
      unfolding post [symmetric] by (rule AddOutputPort_shape [OF fresh dep])
  qed
  then show ?thesis by simp
qed

lemma new_slot_shape:
  "establishes (shape K D u) (\<lambda>c. (Inr (), c\<lparr>cache := (cache c)(i \<mapsto> v)\<rparr>))
     (shape K (insert i D) u)"
  by (auto simp add: establishes_def shape_def)

lemma CreateNewCacheEntryValue_shape:
  assumes "i \<notin> D" "t \<notin> K" "fset ps \<subseteq> K"
  shows "establishes (shape K D u) (CreateNewCacheEntryValue i t d ps)
           (shape (insert t K) (insert i D) u)"
proof -
  let ?J = "\<lambda>ys :: DependencyTicket list. shape (insert t K) (insert i D) u"
  have "establishes (?J []) (for_each (\<lambda>prereq. in_sequence [get_mutable_tracker prereq,
                                            SubscribeToPrerequisite t prereq])
             (sorted_list_of_fset ps)) (?J (sorted_list_of_fset ps))"
  proof (rule establishes_for_each [where I = ?J])
    fix ys x zs assume "sorted_list_of_fset ps = ys @ x # zs"
    then have "x \<in> set (sorted_list_of_fset ps)" by simp
    with assms(3) have x: "x \<in> insert t K" by auto
    show "establishes (?J ys) (in_sequence [get_mutable_tracker x, SubscribeToPrerequisite t x])
            (?J (ys @ [x]))"
      by (intro establishes_in_sequence_Cons [OF get_mutable_tracker_shape [OF x]]
          establishes_in_sequence_Cons [OF SubscribeToPrerequisite_shape]
          establishes_in_sequence_Nil)
  qed
  then have body: "establishes (shape K D u)
        (in_sequence
          [(\<lambda>c. (Inr (), c\<lparr>cache := (cache c)(i \<mapsto>
                     \<lparr>value_description = d, value_cache_index = i,
                      value_ticket = t, held_value = None, caching_disabled = False\<rparr>)\<rparr>)),
           CreateNewDependencyTracker t (''cache '' @ d),
           for_each (\<lambda>prereq. in_sequence [get_mutable_tracker prereq,
                                            SubscribeToPrerequisite t prereq])
             (sorted_list_of_fset ps)])
        (shape (insert t K) (insert i D) u)"
    by (intro establishes_in_sequence_Cons [OF new_slot_shape]
        establishes_in_sequence_Cons [OF CreateNewDependencyTracker_shape [OF assms(2)]]
        establishes_in_sequence_Cons [where Q = "shape (insert t K) (insert i D) u"]
        establishes_in_sequence_Nil)
  show ?thesis
  proof (rule establishesI)
    fix c assume c: "shape K D u c"
    with assms(1) have "cache c i = None" by (auto simp add: shape_def)
    with establishesD [OF body c]
    show "fst (CreateNewCacheEntryValue i t d ps c) = Inr () \<and>
          shape (insert t K) (insert i D) u (snd (CreateNewCacheEntryValue i t d ps c))"
      by (simp add: CreateNewCacheEntryValue_def)
  qed
qed

lemma initialize_cache_entry_shape:
  assumes "cache_index e \<notin> D" "entry_ticket e \<notin> K" "fset (prerequisites e) \<subseteq> K"
  shows "establishes (shape K D u) (initialize_cache_entry e)
           (shape (insert (entry_ticket e) K) (insert (cache_index e) D) u)"
  unfolding initialize_cache_entry_def SetInitialValue_def disable_caching_def
  by (cases "is_disabled_by_default e")
     (simp_all add: establishes_in_sequence_Cons [OF CreateNewCacheEntryValue_shape [OF assms]]
        establishes_in_sequence_Cons [OF on_cache_value_shape] establishes_in_sequence_Nil)

lemma prerequisites_known_nth:
  "prerequisites_known known (ys @ x # zs) \<Longrightarrow>
   fset (prerequisites x) \<subseteq> known \<union> set (map entry_ticket ys)"
  by (induction ys arbitrary: known) auto

lemma cache_entries_shape:
  assumes dist: "distinct (map entry_ticket (entries :: CacheEntry list))"
    and new: "set (map entry_ticket entries) \<inter> K = {}"
    and idist: "distinct (map cache_index entries)"
    and inew: "set (map cache_index entries) \<inter> D = {}"
    and known: "prerequisites_known K entries"
  shows "establishes (shape K D u) (for_each initialize_cache_entry entries)
           (shape (K \<union> set (map entry_ticket entries)) (D \<union> set (map cache_index entries)) u)"
proof -
  let ?I = "\<lambda>ys :: CacheEntry list.
              shape (K \<union> set (map entry_ticket ys)) (D \<union> set (map cache_index ys)) u"
  have "establishes (?I []) (for_each initialize_cache_entry entries) (?I entries)"
  proof (rule establishes_for_each [where I = ?I])
    fix ys x zs assume split: "entries = ys @ x # zs"
    with dist new have t: "entry_ticket x \<notin> K \<union> set (map entry_ticket ys)" by auto
    from split idist inew have i: "cache_index x \<notin> D \<union> set (map cache_index ys)" by auto
    from prerequisites_known_nth [of K ys x zs] split known
    have p: "fset (prerequisites x) \<subseteq> K \<union> set (map entry_ticket ys)"
      by simp
    have post: "insert (entry_ticket x) (K \<union> set (map entry_ticket ys))
                  = K \<union> set (map entry_ticket (ys @ [x]))"
      "insert (cache_index x) (D \<union> set (map cache_index ys))
                  = D \<union> set (map cache_index (ys @ [x]))"
      by auto
    show "establishes (?I ys) (initialize_cache_entry x) (?I (ys @ [x]))"
      unfolding post [symmetric] by (rule initialize_cache_entry_shape [OF i t p])
  qed
  then show ?thesis by simp
qed

lemma for_each_map:
  "for_each body (map f xs) c = for_each (\<lambda>x. body (f x)) xs c"
  by (induction xs arbitrary: c) (auto split: prod.splits sum.splits)

lemma cache_entry_loop:
  "for_each (\<lambda>index. initialize_cache_entry (get_cache_entry s index)) [0..<num_cache_entries s]
     = for_each initialize_cache_entry (cache_entries s)"
proof
  fix c
  have "for_each initialize_cache_entry (map (\<lambda>index. cache_entries s ! index)
          [0..<length (cache_entries s)]) c
        = for_each (\<lambda>index. initialize_cache_entry (cache_entries s ! index))
            [0..<length (cache_entries s)] c"
    by (rule for_each_map)
  then show "for_each (\<lambda>index. initialize_cache_entry (get_cache_entry s index))
          [0..<num_cache_entries s] c = for_each initialize_cache_entry (cache_entries s) c"
    by (simp add: map_nth get_cache_entry_def num_cache_entries_def)
qed

lemma CreateSourceTrackers_shape:
  assumes subs: "{xd_ticket s, xa_ticket s, pn_ticket s, pa_ticket s, u} \<subseteq> K"
    and dist: "distinct (source_tickets s @ map port_ticket (input_ports s))"
    and new: "set (source_tickets s @ map port_ticket (input_ports s)) \<inter> K = {}"
  shows "establishes (shape K D u) (CreateSourceTrackers s)
           (shape (K \<union> set (source_tickets s) \<union> set (map port_ticket (input_ports s))) D u)"
proof -
  let ?xd = "map info_ticket (discrete_state_tickets s)"
  let ?xa = "map info_ticket (abstract_state_tickets s)"
  let ?pn = "map info_ticket (numeric_parameter_tickets s)"
  let ?pa = "map info_ticket (abstract_parameter_tickets s)"
  let ?u = "map port_ticket (input_ports s)"
  let ?K1 = "K \<union> set ?xd"
  let ?K2 = "?K1 \<union> set ?xa"
  let ?K3 = "?K2 \<union> set ?pn"
  let ?K4 = "?K3 \<union> set ?pa"
  let ?K5 = "?K4 \<union> set ?u"
  from dist have d: "distinct ?xd" "distinct ?xa" "distinct ?pn" "distinct ?pa" "distinct ?u"
    by (simp_all add: source_tickets_def)
  from dist new have n: "set ?xd \<inter> K = {}" "set ?xa \<inter> ?K1 = {}" "set ?pn \<inter> ?K2 = {}"
    "set ?pa \<inter> ?K3 = {}" "set ?u \<inter> ?K4 = {}"
    by (auto simp add: source_tickets_def)
  from subs have m: "xd_ticket s \<in> K" "xa_ticket s \<in> ?K1" "pn_ticket s \<in> ?K2"
    "pa_ticket s \<in> ?K3" "u \<in> ?K4"
    by auto
  have "establishes (shape K D u) (CreateSourceTrackers s) (shape ?K5 D u)"
    unfolding CreateSourceTrackers_def
    by (intro establishes_in_sequence_Cons
          [OF make_trackers_shape [OF m(1) d(1) n(1) Add_ticket_shape(1)]]
        establishes_in_sequence_Cons
          [OF make_trackers_shape [OF m(2) d(2) n(2) Add_ticket_shape(2)]]
        establishes_in_sequence_Cons
          [OF make_trackers_shape [OF m(3) d(3) n(3) Add_ticket_shape(3)]]
        establishes_in_sequence_Cons
          [OF make_trackers_shape [OF m(4) d(4) n(4) Add_ticket_shape(4)]]
        establishes_in_sequence_Cons [OF input_ports_shape [OF m(5) d(5) n(5)]]
        establishes_in_sequence_Nil)
  moreover have "?K5 = K \<union> set (source_tickets s) \<union> set (map port_ticket (input_ports s))"
    by (auto simp add: source_tickets_def)
  ultimately show ?thesis by simp
qed

lemma initialization_statements_complete:
  assumes fresh: "fresh_context_for s c"
  shows "fst (initialization_statements s c) = Inr ()"
proof -
  let ?K = "dom (trackers (graph c))"
  let ?D = "dom (cache c)"
  let ?u = "all_input_ports_ticket c"
  let ?K1 = "?K \<union> set (source_tickets s) \<union> set (map port_ticket (input_ports s))"
  let ?K2 = "?K1 \<union> set (map entry_ticket (cache_entries s))"
  let ?D2 = "?D \<union> set (map cache_index (cache_entries s))"
  let ?K3 = "?K2 \<union> set (map port_ticket (output_ports s))"
  from fresh have subs: "{xd_ticket s, xa_ticket s, pn_ticket s, pa_ticket s, ?u} \<subseteq> ?K"
    and dist: "distinct (declared_tickets s)"
    and new: "set (declared_tickets s) \<inter> ?K = {}"
    and idist: "distinct (map cache_index (cache_entries s))"
    and inew: "set (map cache_index (cache_entries s)) \<inter> ?D = {}"
    and known: "prerequisites_known ?K1 (cache_entries s)"
    and deps: "list_all (\<lambda>oport. child_subsystem (prerequisite oport) \<noteq> None
                   \<or> dependency (prerequisite oport) \<in> ?K2) (output_ports s)"
    by (simp_all add: fresh_context_for_def)
  from dist have d: "distinct (source_tickets s @ map port_ticket (input_ports s))"
    "distinct (map entry_ticket (cache_entries s))" "distinct (map port_ticket (output_ports s))"
    by (auto simp add: declared_tickets_def)
  from dist new have n: "set (source_tickets s @ map port_ticket (input_ports s)) \<inter> ?K = {}"
    "set (map entry_ticket (cache_entries s)) \<inter> ?K1 = {}"
    "set (map port_ticket (output_ports s)) \<inter> ?K2 = {}"
    by (auto simp add: declared_tickets_def)
  from deps have dep: "\<And>oport. oport \<in> set (output_ports s) \<Longrightarrow>
      child_subsystem (prerequisite oport) = None \<Longrightarrow> dependency (prerequisite oport) \<in> ?K2"
    by (auto simp add: list_all_iff)
  have "establishes (shape ?K ?D ?u) (initialization_statements s) (shape ?K3 ?D2 ?u)"
    unfolding initialization_statements_def cache_entry_loop
    by (intro establishes_in_sequence_Cons [OF set_system_shape(1)]
        establishes_in_sequence_Cons [OF set_system_shape(2)]
        establishes_in_sequence_Cons [OF CreateSourceTrackers_shape [OF subs d(1) n(1)]]
        establishes_in_sequence_Cons [OF cache_entries_shape [OF d(2) n(2) idist inew known]]
        establishes_in_sequence_Cons [OF output_ports_shape [OF d(3) n(3) dep]]
        establishes_in_sequence_Cons [OF set_system_shape(3)]
        establishes_in_sequence_Nil)
  from establishesD [OF this, of c] show ?thesis by (simp add: shape_def)
qed

lemma InitializeContextBase_completes:
  assumes fresh: "fresh_context_for s (base context)"
  shows "fst (InitializeContextBase s (Some context)) = Inr ()"
proof -
  from fresh have "\<not> is_context_base_initialized (base context)"
    by (simp add: fresh_context_for_def)
  with initialization_statements_complete [OF fresh] show ?thesis
    by (auto simp add: InitializeContextBase_def split: prod.splits)
qed

lemma keepsD: "keeps f m \<Longrightarrow> m c = (r, c') \<Longrightarrow> f c' = f c"
  by (metis keeps_def snd_conv)

lemma keeps_for_each:
  "(\<And>x. x \<in> set xs \<Longrightarrow> keeps f (body x)) \<Longrightarrow> keeps f (for_each body xs)"
proof (induction xs)
  case Nil
  show ?case by (simp add: keeps_def)
next
  case (Cons x xs)
  from Cons.prems have x: "keeps f (body x)" and xs: "keeps f (for_each body xs)"
    by (auto intro: Cons.IH)
  show ?case
    unfolding keeps_def
  proof
    fix c
    obtain r c1 where b: "body x c = (r, c1)" by (cases "body x c") auto
    from keepsD [OF x b] have 1: "f c1 = f c" .
    obtain r' c2 where l: "for_each body xs c1 = (r', c2)" by (cases "for_each body xs c1") auto
    from keepsD [OF xs l] 1 have "f c2 = f c" by simp
    with b l 1 show "f (snd (for_each body (x # xs) c)) = f c"
      by (cases r) auto
  qed
qed

lemma keeps_in_sequence:
  "(\<And>m. m \<in> set ms \<Longrightarrow> keeps f m) \<Longrightarrow> keeps f (in_sequence ms)"
  unfolding in_sequence_def by (rule keeps_for_each)

lemma keeps_cache_primitives:
  "keeps cache (CreateNewDependencyTracker t d)"
  "keeps cache (get_mutable_tracker t)"
  "keeps cache (SubscribeToPrerequisite a b)"
  "keeps cache (AddDiscreteStateTicket t)"
  "keeps cache (AddAbstractStateTicket t)"
  "keeps cache (AddNumericParameterTicket t)"
  "keeps cache (AddAbstractParameterTicket t)"
  "keeps cache (set_system_name n)"
  "keeps cache (set_system_id i)"
  "keeps cache mark_context_base_initialized"
  by (simp_all add: keeps_def CreateNewDependencyTracker_def get_mutable_tracker_def
      SubscribeToPrerequisite_def AddDiscreteStateTicket_def AddAbstractStateTicket_def
      AddNumericParameterTicket_def AddAbstractParameterTicket_def set_system_name_def
      set_system_id_def mark_context_base_initialized_def)

lemma keeps_cache_AddInputPort: "keeps cache (AddInputPort i t chk)"
proof -
  have "keeps cache (in_sequence
       [CreateNewDependencyTracker t (''u_'' @ format_int (int i)),
        (\<lambda>c. (Inr (), c\<lparr>input_port_tickets := input_port_tickets c @ [t],
                          input_port_type_checkers := input_port_type_checkers c @ [chk]\<rparr>)),
        (\<lambda>c. get_mutable_tracker (all_input_ports_ticket c) c),
        (\<lambda>c. SubscribeToPrerequisite (all_input_ports_ticket c) t c)])"
    by (rule keeps_in_sequence)
       (auto simp add: keeps_def CreateNewDependencyTracker_def get_mutable_tracker_def
         SubscribeToPrerequisite_def)
  then show ?thesis by (simp add: keeps_def AddInputPort_def)
qed

lemma keeps_cache_AddOutputPort: "keeps cache (AddOutputPort i t p)"
proof -
  have "keeps cache (in_sequence
       ([CreateNewDependencyTracker t (''y_'' @ format_int (int i)),
         (\<lambda>c. (Inr (), c\<lparr>output_port_tickets := output_port_tickets c @ [t]\<rparr>))] @
        (if child_subsystem p = None
         then [get_mutable_tracker (dependency p), SubscribeToPrerequisite t (dependency p)]
         else [])))"
    by (rule keeps_in_sequence)
       (auto simp add: keeps_def CreateNewDependencyTracker_def get_mutable_tracker_def
         SubscribeToPrerequisite_def split: if_splits)
  then show ?thesis by (simp add: keeps_def AddOutputPort_def)
qed

lemma keeps_cache_make_trackers:
  "(\<And>t. keeps cache (add t)) \<Longrightarrow> keeps cache (make_trackers subscriber infos add)"
  unfolding make_trackers_def
  by (intro keeps_in_sequence keeps_for_each)
     (auto intro!: keeps_in_sequence keeps_for_each simp add: keeps_cache_primitives)

lemma keeps_cache_CreateSourceTrackers: "keeps cache (CreateSourceTrackers s)"
  unfolding CreateSourceTrackers_def
  by (rule keeps_in_sequence)
     (auto intro!: keeps_cache_make_trackers keeps_for_each keeps_cache_AddInputPort
       simp add: keeps_cache_primitives)

lemma in_sequence_Nil [simp]: "in_sequence [] c = (Inr (), c)"
  by (simp add: in_sequence_def)

lemma in_sequence_Cons_success:
  "in_sequence (m # ms) c = (Inr (), c') \<longleftrightarrow>
   (\<exists>c1. m c = (Inr (), c1) \<and> in_sequence ms c1 = (Inr (), c'))"
  by (cases "m c") (auto simp add: in_sequence_def split: sum.splits)

lemma for_each_Cons_success:
  "for_each body (x # xs) c = (Inr (), c') \<longleftrightarrow>
   (\<exists>c1. body x c = (Inr (), c1) \<and> for_each body xs c1 = (Inr (), c'))"
  by (cases "body x c") (auto split: sum.splits)

lemma CreateNewCacheEntryValue_success:
  assumes "CreateNewCacheEntryValue i t d ps c = (Inr (), c')"
  shows "cache c i = None
         \<and> cache c' = (cache c)(i \<mapsto> \<lparr>value_description = d, value_cache_index = i,
                      value_ticket = t, held_value = None, caching_disabled = False\<rparr>)"
proof -
  from assms have free: "cache c i = None"
    by (auto simp add: CreateNewCacheEntryValue_def split: if_splits)
  let ?c1 = "c\<lparr>cache := (cache c)(i \<mapsto> \<lparr>value_description = d, value_cache_index = i,
                      value_ticket = t, held_value = None, caching_disabled = False\<rparr>)\<rparr>"
  from assms free have rest: "in_sequence
          [CreateNewDependencyTracker t (''cache '' @ d),
           for_each (\<lambda>prereq. in_sequence [get_mutable_tracker prereq,
                                            SubscribeToPrerequisite t prereq])
             (sorted_list_of_fset ps)] ?c1 = (Inr (), c')"
    by (simp add: CreateNewCacheEntryValue_def in_sequence_Cons_success)
  have "keeps cache (in_sequence
          [CreateNewDependencyTracker t (''cache '' @ d),
           for_each (\<lambda>prereq. in_sequence [get_mutable_tracker prereq,
                                            SubscribeToPrerequisite t prereq])
             (sorted_list_of_fset ps)])"
    by (rule keeps_in_sequence)
       (auto intro!: keeps_in_sequence keeps_for_each simp add: keeps_cache_primitives)
  from keepsD [OF this rest] free show ?thesis by simp
qed

lemma initialize_cache_entry_success:
  assumes "initialize_cache_entry e c = (Inr (), c')"
  shows "cache c (cache_index e) = None
         \<and> cache c' = (cache c)(cache_index e \<mapsto> seeded_value e)"
proof -
  from assms obtain c1 where
    create: "CreateNewCacheEntryValue (cache_index e) (entry_ticket e) (entry_description e)
               (prerequisites e) c = (Inr (), c1)"
    and rest: "in_sequence (SetInitialValue (cache_index e) (Allocate e) #
                 (if is_disabled_by_default e then [disable_caching (cache_index e)] else []))
               c1 = (Inr (), c')"
    by (auto simp add: initialize_cache_entry_def in_sequence_Cons_success)
  from CreateNewCacheEntryValue_success [OF create]
  have free: "cache c (cache_index e) = None"
    and c1: "cache c1 = (cache c)(cache_index e \<mapsto>
               \<lparr>value_description = entry_description e, value_cache_index = cache_index e,
                value_ticket = entry_ticket e, held_value = None, caching_disabled = False\<rparr>)"
    by simp_all
  from rest c1 have "cache c' = (cache c)(cache_index e \<mapsto> seeded_value e)"
    by (cases "is_disabled_by_default e")
       (auto simp add: in_sequence_Cons_success SetInitialValue_def disable_caching_def
         on_cache_value_def seeded_value_def)
  with free show ?thesis by simp
qed

lemma cache_entries_success:
  "for_each initialize_cache_entry entries c = (Inr (), c') \<Longrightarrow>
   (\<forall>e \<in> set entries. cache c (cache_index e) = None
                      \<and> cache c' (cache_index e) = Some (seeded_value e))
   \<and> (\<forall>i. i \<notin> cache_index ` set entries \<longrightarrow> cache c' i = cache c i)"
proof (induction entries arbitrary: c)
  case Nil
  then show ?case by simp
next
  case (Cons e entries)
  from Cons.prems obtain c1 where
    first: "initialize_cache_entry e c = (Inr (), c1)"
    and rest: "for_each initialize_cache_entry entries c1 = (Inr (), c')"
    unfolding for_each_Cons_success by blast
  from initialize_cache_entry_success [OF first]
  have free: "cache c (cache_index e) = None"
    and c1: "cache c1 = (cache c)(cache_index e \<mapsto> seeded_value e)"
    by simp_all
  from Cons.IH [OF rest]
  have later: "\<And>e'. e' \<in> set entries \<Longrightarrow> cache c1 (cache_index e') = None
                      \<and> cache c' (cache_index e') = Some (seeded_value e')"
    and other: "\<And>i. i \<notin> cache_index ` set entries \<Longrightarrow> cache c' i = cache c1 i"
    by auto
  have apart: "cache_index e \<notin> cache_index ` set entries"
  proof
    assume "cache_index e \<in> cache_index ` set entries"
    then obtain e' where "e' \<in> set entries" "cache_index e' = cache_index e" by auto
    with later [of e'] c1 show False by simp
  qed
  show ?case
  proof (intro conjI ballI allI impI)
    fix x assume x: "x \<in> set (e # entries)"
    show "cache c (cache_index x) = None"
    proof (cases "x = e")
      case True with free show ?thesis by simp
    next
      case False
      with x have xin: "x \<in> set entries" by simp
      with apart have "cache_index x \<noteq> cache_index e" by (metis imageI)
      with later [OF xin] c1 show ?thesis by simp
    qed
    show "cache c' (cache_index x) = Some (seeded_value x)"
    proof (cases "x = e")
      case True with other [OF apart] c1 show ?thesis by simp
    next
      case False
      with x have "x \<in> set entries" by simp
      from later [OF this] show ?thesis by simp
    qed
  next
    fix i assume i: "i \<notin> cache_index ` set (e # entries)"
    then have "i \<notin> cache_index ` set entries" "i \<noteq> cache_index e" by auto
    with other [of i] c1 show "cache c' i = cache c i" by simp
  qed
qed

lemma initialization_statements_success:
  assumes "initialization_statements s c = (Inr (), c')"
  shows "is_context_base_initialized c'"
    and "e \<in> set (cache_entries s) \<Longrightarrow> cache c' (cache_index e) = Some (seeded_value e)"
proof -
  from assms obtain c3 c4 c5 where
    loop: "for_each initialize_cache_entry (cache_entries s) c3 = (Inr (), c4)"
    and outputs: "for_each (\<lambda>oport. AddOutputPort (get_index oport) (port_ticket oport)
                    (prerequisite oport)) (output_ports s) c4 = (Inr (), c5)"
    and mark: "mark_context_base_initialized c5 = (Inr (), c')"
    by (auto simp add: initialization_statements_def in_sequence_Cons_success cache_entry_loop)
  from mark show "is_context_base_initialized c'"
    by (auto simp add: mark_context_base_initialized_def)
  have "keeps cache (for_each (\<lambda>oport. AddOutputPort (get_index oport) (port_ticket oport)
                    (prerequisite oport)) (output_ports s))"
    by (rule keeps_for_each) (rule keeps_cache_AddOutputPort)
  from keepsD [OF this outputs] keepsD [OF keeps_cache_primitives(10) mark]
  have same: "cache c' = cache c4" by simp
  assume "e \<in> set (cache_entries s)"
  with cache_entries_success [OF loop] same
  show "cache c' (cache_index e) = Some (seeded_value e)" by simp
qed

lemma InitializeContextBase_success:
  assumes "InitializeContextBase s (Some context) = (Inr (), after)"
  shows "\<exists>c'. initialization_statements s (base context) = (Inr (), c')
              \<and> after = Some (ContextBase c' (get_parent_base context))"
  using assms
  by (cases "initialization_statements s (base context)")
     (auto simp add: InitializeContextBase_def split: if_splits)

lemma InitializeContextBase_again:
  "is_context_base_initialized (base context) \<Longrightarrow>
   InitializeContextBase s (Some context) = (Inl demand_failed, Some context)"
  by (simp add: InitializeContextBase_def)

text \<open>
  Claim C4. On a Context that is already initialized, \<^verbatim>\<open>InitializeContextBase\<close> fails its
  \<^verbatim>\<open>DRAKE_DEMAND\<close> and the Context is what it was. On a fresh Context (not initialized,
  holding the well-known trackers, none of the System's declared tickets and none of its
  cache slots) of a System whose tickets are distinct and whose prerequisites are declared
  before their use, it completes. Whenever it completes, the Context is marked initialized,
  and a second call on it, by any System, fails and leaves it as it is.
\<close>

theorem InitializeContextBase_once:
  "(is_context_base_initialized (base context) \<longrightarrow>
      InitializeContextBase s (Some context) = (Inl demand_failed, Some context))
   \<and> (fresh_context_for s (base context) \<longrightarrow>
      fst (InitializeContextBase s (Some context)) = Inr ())
   \<and> (InitializeContextBase s (Some context) = (Inr (), after) \<longrightarrow>
      (\<exists>context'. after = Some context'
         \<and> is_context_base_initialized (base context')
         \<and> InitializeContextBase s' (Some context') = (Inl demand_failed, Some context')))"
proof (intro conjI impI)
  assume "is_context_base_initialized (base context)"
  then show "InitializeContextBase s (Some context) = (Inl demand_failed, Some context)"
    by (rule InitializeContextBase_again)
next
  assume "fresh_context_for s (base context)"
  then show "fst (InitializeContextBase s (Some context)) = Inr ()"
    by (rule InitializeContextBase_completes)
next
  assume "InitializeContextBase s (Some context) = (Inr (), after)"
  from InitializeContextBase_success [OF this] obtain c' where
    run: "initialization_statements s (base context) = (Inr (), c')"
    and after: "after = Some (ContextBase c' (get_parent_base context))"
    by blast
  from initialization_statements_success(1) [OF run]
  have "is_context_base_initialized (base (ContextBase c' (get_parent_base context)))" by simp
  with after InitializeContextBase_again [of "ContextBase c' (get_parent_base context)" s']
  show "\<exists>context'. after = Some context'
         \<and> is_context_base_initialized (base context')
         \<and> InitializeContextBase s' (Some context') = (Inl demand_failed, Some context')"
    by blast
qed

lemma motor_fresh: "fresh_context_for motor blank_context_data"
  by (simp add: fresh_context_for_def declared_tickets_def source_tickets_def motor_def
      blank_context_data_def torque_port_def speed_port_def shaft_port_def)

text \<open>
  The Motor's Context, already initialized, on one side; a Context as its constructor leaves
  it, initialized for the Motor and then given to the root Diagram, on the other.
\<close>

theorem InitializeContextBase_once_witness:
  "is_context_base_initialized (base motor_context)
   \<and> InitializeContextBase motor (Some motor_context) = (Inl demand_failed, Some motor_context)
   \<and> fresh_context_for motor (base (ContextBase blank_context_data None))
   \<and> fst (InitializeContextBase motor (Some (ContextBase blank_context_data None))) = Inr ()
   \<and> (\<exists>context'.
         snd (InitializeContextBase motor (Some (ContextBase blank_context_data None)))
           = Some context'
         \<and> is_context_base_initialized (base context')
         \<and> InitializeContextBase root_diagram (Some context')
             = (Inl demand_failed, Some context'))"
proof -
  have 1: "is_context_base_initialized (base motor_context)"
    by (simp add: motor_context_def)
  have 2: "fresh_context_for motor (base (ContextBase blank_context_data None))"
    by (simp add: motor_fresh)
  from InitializeContextBase_once [of "ContextBase blank_context_data None" motor] 2
  have 3: "fst (InitializeContextBase motor (Some (ContextBase blank_context_data None))) = Inr ()"
    by blast
  then have 4: "InitializeContextBase motor (Some (ContextBase blank_context_data None))
     = (Inr (), snd (InitializeContextBase motor (Some (ContextBase blank_context_data None))))"
    by (metis prod.collapse)
  from InitializeContextBase_once [of "ContextBase blank_context_data None" motor
      "snd (InitializeContextBase motor (Some (ContextBase blank_context_data None)))"
      root_diagram] 4
  have 5: "\<exists>context'.
         snd (InitializeContextBase motor (Some (ContextBase blank_context_data None)))
           = Some context'
         \<and> is_context_base_initialized (base context')
         \<and> InitializeContextBase root_diagram (Some context')
             = (Inl demand_failed, Some context')"
    by blast
  from InitializeContextBase_once [of motor_context motor] 1
  have 6: "InitializeContextBase motor (Some motor_context)
             = (Inl demand_failed, Some motor_context)"
    by blast
  from 1 2 3 5 6 show ?thesis by blast
qed

text \<open>
  Claim C10. When \<^verbatim>\<open>InitializeContextBase\<close> has succeeded, the Context holds, for every
  cache entry of the System, a cache-entry value in the slot of the entry's index; that
  value holds the value produced by the entry's allocate capability, and its caching is
  disabled exactly when the entry is disabled by default.
\<close>

theorem InitializeContextBase_cache_values:
  "fst (InitializeContextBase s (Some context)) = Inr () \<Longrightarrow>
   entry \<in> set (cache_entries s) \<Longrightarrow>
   \<exists>context' cache_value.
     snd (InitializeContextBase s (Some context)) = Some context'
     \<and> cache (base context') (cache_index entry) = Some cache_value
     \<and> held_value cache_value = Some (allocate (value_producer entry) ())
     \<and> caching_disabled cache_value = is_disabled_by_default entry"
proof -
  assume ok: "fst (InitializeContextBase s (Some context)) = Inr ()"
    and entry: "entry \<in> set (cache_entries s)"
  from ok have "InitializeContextBase s (Some context)
                  = (Inr (), snd (InitializeContextBase s (Some context)))"
    by (metis prod.collapse)
  from InitializeContextBase_success [OF this] obtain c' where
    run: "initialization_statements s (base context) = (Inr (), c')"
    and after: "snd (InitializeContextBase s (Some context))
                  = Some (ContextBase c' (get_parent_base context))"
    by blast
  from initialization_statements_success(2) [OF run entry]
  have "cache (base (ContextBase c' (get_parent_base context))) (cache_index entry)
          = Some (seeded_value entry)"
    by simp
  moreover have "held_value (seeded_value entry) = Some (allocate (value_producer entry) ())"
    "caching_disabled (seeded_value entry) = is_disabled_by_default entry"
    by (simp_all add: seeded_value_def Allocate_def)
  ultimately show ?thesis using after by blast
qed

text \<open>
  The two cache entries of the Motor: the first starts with caching enabled and holds the
  value 0 of its producer, the second is disabled by default and holds the value 9.
\<close>

theorem InitializeContextBase_cache_values_witness:
  "fst (InitializeContextBase motor (Some (ContextBase blank_context_data None))) = Inr ()
   \<and> (\<exists>context' cache_value.
         snd (InitializeContextBase motor (Some (ContextBase blank_context_data None)))
           = Some context'
         \<and> cache (base context') 0 = Some cache_value
         \<and> held_value cache_value = Some (AbstractValue 0)
         \<and> \<not> caching_disabled cache_value)
   \<and> (\<exists>context' cache_value.
         snd (InitializeContextBase motor (Some (ContextBase blank_context_data None)))
           = Some context'
         \<and> cache (base context') 1 = Some cache_value
         \<and> held_value cache_value = Some (AbstractValue 9)
         \<and> caching_disabled cache_value)"
proof -
  let ?pose = "\<lparr>owning_system = 2, cache_index = 0, entry_ticket = 32,
                entry_description = ''pose'', value_producer = example_producer,
                prerequisites = {|7, 30|}, is_disabled_by_default = False\<rparr>"
  let ?power = "\<lparr>owning_system = 2, cache_index = 1, entry_ticket = 33,
                 entry_description = ''power'', value_producer = other_producer,
                 prerequisites = {|32|}, is_disabled_by_default = True\<rparr>"
  have ok: "fst (InitializeContextBase motor (Some (ContextBase blank_context_data None))) = Inr ()"
    by (rule InitializeContextBase_completes) (simp add: motor_fresh)
  have entries: "?pose \<in> set (cache_entries motor)" "?power \<in> set (cache_entries motor)"
    by (simp_all add: motor_def)
  from InitializeContextBase_cache_values [OF ok entries(1)]
    InitializeContextBase_cache_values [OF ok entries(2)] ok
  show ?thesis by (simp add: example_producer_def other_producer_def)
qed

end
